theory Spec2Isabelle
  imports Complex_Main
begin

section \<open>Conventions of the embedding\<close>

text \<open>
  The Go packages \<^verbatim>\<open>internal/streams\<close> (Deepgram transcription, Gemini frame
  descriptions) and \<^verbatim>\<open>internal/handler\<close> (the extraction request handler) are embedded
  as HOL functions.

  \<^item> A Go \<^verbatim>\<open>string\<close> or \<^verbatim>\<open>[]byte\<close> is a \<open>string\<close>; a character stands for a code
    point up to U+00FF, the range on which \<^verbatim>\<open>unicode.IsSpace\<close> is the fixed table below.
  \<^item> A \<^verbatim>\<open>float64\<close> time is a \<open>real\<close>: the code copies times, and subtracts and compares
    them once in the chunker; rounding is not modelled.
  \<^item> A Go \<^verbatim>\<open>error\<close> is its message, and a function returning \<^verbatim>\<open>(T, error)\<close> returns
    \<open>string + T\<close> with \<open>Inl\<close> the error.
  \<^item> A nil slice and an empty slice are both \<open>[]\<close>: the code only ranges over slices and takes
    their length.
\<close>

section \<open>Library functions of \<^verbatim>\<open>strings\<close> and \<^verbatim>\<open>fmt\<close>\<close>

text \<open>\<^verbatim>\<open>unicode.IsSpace\<close> on Latin-1: tab, newline, vertical tab, form feed, carriage
  return, space, U+0085 (NEL) and U+00A0 (NBSP).\<close>

definition isSpace :: "char \<Rightarrow> bool" where
  "isSpace c = (c \<in> {CHR 0x09, CHR 0x0A, CHR 0x0B, CHR 0x0C, CHR 0x0D, CHR 0x20, CHR 0x85, CHR 0xA0})"

text \<open>\<^verbatim>\<open>strings.TrimSpace\<close>: all leading and trailing white space removed.\<close>

definition TrimSpace :: "string \<Rightarrow> string" where
  "TrimSpace s = rev (dropWhile isSpace (rev (dropWhile isSpace s)))"

text \<open>\<^verbatim>\<open>strings.Join(elems, sep)\<close>.\<close>

fun Join :: "string list \<Rightarrow> string \<Rightarrow> string" where
  "Join [] sep = []"
| "Join [x] sep = x"
| "Join (x # y # ys) sep = x @ sep @ Join (y # ys) sep"

text \<open>The verb \<^verbatim>\<open>%d\<close> of \<^verbatim>\<open>fmt\<close>: an integer in decimal. A digit is below ten where
  \<open>digit_char\<close> is called.\<close>

definition digit_char :: "nat \<Rightarrow> char" where
  "digit_char d = ''0123456789'' ! d"

function decimal :: "nat \<Rightarrow> string" where
  "decimal n = (if n < 10 then [digit_char n] else decimal (n div 10) @ [digit_char (n mod 10)])"
  by pat_completeness auto
termination
  by (relation "measure id") auto

declare decimal.simps [simp del]

definition Itoa :: "int \<Rightarrow> string" where
  "Itoa i = (if i < 0 then ''-'' @ decimal (nat (- i)) else decimal (nat i))"

section \<open>The HTTP client and the JSON codec, as the environment\<close>

text \<open>
  What \<^verbatim>\<open>net/http\<close>, \<^verbatim>\<open>encoding/json\<close>, \<^verbatim>\<open>encoding/base64\<close> and the verb
  \<^verbatim>\<open>%.1f\<close> do is not code of the repository: it is a parameter of the model. The network is a
  state \<open>'w\<close> that every request may change, so two equal requests can be answered differently.
\<close>

record http_request =
  req_method :: string
  req_url :: string
  req_header :: "(string \<times> string) list"
  req_body :: string

text \<open>A response body is a stream: reading it to the end gives the bytes that arrived and, when
  the read broke, the error.\<close>

record http_body =
  data :: string
  read_err :: "string option"

record http_response =
  StatusCode :: int
  Body :: http_body

record wordEntry =
  Word :: string
  w_Start :: real
  w_End :: real

record utterance =
  u_Start :: real
  u_End :: real
  Transcript :: string

record alternative =
  Words :: "wordEntry list"

record channel =
  Alternatives :: "alternative list"

text \<open>\<^verbatim>\<open>deepgramResponse.Results\<close>, the only field of the response.\<close>

record deepgramResponse =
  Utterances :: "utterance list"
  Channels :: "channel list"

record geminiInline =
  MimeType :: string
  Data :: string

record geminiPart =
  part_Text :: string
  InlineData :: "geminiInline option"

record geminiContent =
  Parts :: "geminiPart list"

record geminiRequest =
  Contents :: "geminiContent list"

text \<open>A candidate of \<^verbatim>\<open>geminiResponse\<close> is its \<^verbatim>\<open>Content.Parts\<close>, a part is its
  \<^verbatim>\<open>Text\<close>; \<^verbatim>\<open>Error\<close> is a pointer to a struct holding \<^verbatim>\<open>Message\<close>.\<close>

record geminiResponse =
  Candidates :: "string list list"
  Error :: "string option"

record 'w env =
  url_error :: "string \<Rightarrow> string option"
  Do :: "'w \<Rightarrow> http_request \<Rightarrow> (string + http_response) \<times> 'w"
  DecodeDeepgram :: "http_body \<Rightarrow> string + deepgramResponse"
  Marshal :: "geminiRequest \<Rightarrow> string + string"
  Unmarshal :: "string \<Rightarrow> string + geminiResponse"
  EncodeToString :: "string \<Rightarrow> string"
  format_f1 :: "real \<Rightarrow> string"

text \<open>\<^verbatim>\<open>http.NewRequestWithContext\<close> with the method POST and a context that is not nil:
  it fails only when the URL does not parse.\<close>

definition NewRequestWithContext :: "'w env \<Rightarrow> string \<Rightarrow> string \<Rightarrow> string \<Rightarrow> string + http_request" where
  "NewRequestWithContext env method url body =
     (case url_error env url of
        Some e \<Rightarrow> Inl e
      | None \<Rightarrow> Inr \<lparr>req_method = method, req_url = url, req_header = [], req_body = body\<rparr>)"

definition Header_Set :: "http_request \<Rightarrow> string \<Rightarrow> string \<Rightarrow> http_request" where
  "Header_Set req k v = req\<lparr>req_header := (k, v) # filter (\<lambda>h. fst h \<noteq> k) (req_header req)\<rparr>"

definition StatusOK :: int where
  "StatusOK = 200"

section \<open>Transcript segmentation (\<^verbatim>\<open>RunASR\<close>, \<^verbatim>\<open>groupWordsIntoChunks\<close>)\<close>

record ASRSegment =
  Start :: real
  End :: real
  Text :: string

record ASRResult =
  Segments :: "ASRSegment list"

text \<open>The local variables of \<^verbatim>\<open>groupWordsIntoChunks\<close>: \<^verbatim>\<open>segments\<close>, \<^verbatim>\<open>chunk\<close>,
  \<^verbatim>\<open>chunkStart\<close> and \<^verbatim>\<open>started\<close>, with Go's zero values at entry.\<close>

record chunk_state =
  segments :: "ASRSegment list"
  chunk :: "string list"
  chunkStart :: real
  started :: bool

definition chunk_init :: chunk_state where
  "chunk_init = \<lparr>segments = [], chunk = [], chunkStart = 0, started = False\<rparr>"

text \<open>One iteration of \<^verbatim>\<open>for _, w := range words\<close>.\<close>

definition chunk_body :: "real \<Rightarrow> chunk_state \<Rightarrow> wordEntry \<Rightarrow> chunk_state" where
  "chunk_body chunkDuration st w =
     (let st1 = (if \<not> started st then st\<lparr>chunkStart := w_Start w, started := True\<rparr> else st);
          st2 = st1\<lparr>chunk := chunk st1 @ [Word w]\<rparr>
      in if w_End w - chunkStart st2 \<ge> chunkDuration
         then st2\<lparr>segments := segments st2 @
                     [\<lparr>Start = chunkStart st2, End = w_End w, Text = Join (chunk st2) '' ''\<rparr>],
                   chunk := [], started := False\<rparr>
         else st2)"

fun chunk_loop :: "real \<Rightarrow> wordEntry list \<Rightarrow> chunk_state \<Rightarrow> chunk_state" where
  "chunk_loop chunkDuration [] st = st"
| "chunk_loop chunkDuration (w # ws) st = chunk_loop chunkDuration ws (chunk_body chunkDuration st w)"

text \<open>The loop, then the flush of what remains. \<^verbatim>\<open>words[len(words)-1]\<close> is read only
  under \<^verbatim>\<open>len(words) > 0\<close>, where it is \<open>last words\<close>.\<close>

definition groupWordsIntoChunks :: "wordEntry list \<Rightarrow> real \<Rightarrow> ASRSegment list" where
  "groupWordsIntoChunks words chunkDuration =
     (let st = chunk_loop chunkDuration words chunk_init
      in if length (chunk st) > 0 \<and> length words > 0
         then segments st @
                [\<lparr>Start = chunkStart st, End = w_End (last words), Text = Join (chunk st) '' ''\<rparr>]
         else segments st)"

text \<open>\<^verbatim>\<open>deepgramBaseURL\<close> and \<^verbatim>\<open>geminiBaseURL\<close> are package variables that only the tests
  assign; they are taken at their initial values.\<close>

definition deepgramBaseURL :: string where
  "deepgramBaseURL = ''https://api.deepgram.com''"

text \<open>The primary path of \<^verbatim>\<open>RunASR\<close>: \<^verbatim>\<open>for _, u := range dgResp.Results.Utterances\<close>.\<close>

fun utterance_loop :: "utterance list \<Rightarrow> ASRResult \<Rightarrow> ASRResult" where
  "utterance_loop [] result = result"
| "utterance_loop (u # us) result =
     (let text = TrimSpace (Transcript u)
      in utterance_loop us
           (if text \<noteq> ''''
            then result\<lparr>Segments := Segments result @
                          [\<lparr>Start = u_Start u, End = u_End u, Text = text\<rparr>]\<rparr>
            else result))"

text \<open>What \<^verbatim>\<open>RunASR\<close> does with the decoded response (from \<^verbatim>\<open>result := &ASRResult{}\<close>
  to the return): the utterances first, the words of the first alternative of the first channel
  when no segment came of them. \<^verbatim>\<open>Channels[0]\<close> and \<^verbatim>\<open>alts[0]\<close> are read under their
  length checks, where they are \<open>hd\<close>.\<close>

definition segment_response :: "deepgramResponse \<Rightarrow> ASRResult" where
  "segment_response dgResp =
     (let result = utterance_loop (Utterances dgResp) \<lparr>Segments = []\<rparr>
      in if length (Segments result) = 0 \<and> length (Channels dgResp) > 0
         then (let alts = Alternatives (hd (Channels dgResp))
               in if length alts > 0
                  then result\<lparr>Segments := groupWordsIntoChunks (Words (hd alts)) 3.0\<rparr>
                  else result)
         else result)"

text \<open>The local \<^verbatim>\<open>url\<close> of \<^verbatim>\<open>RunASR\<close>.\<close>

definition deepgram_url :: string where
  "deepgram_url = deepgramBaseURL @
     ''/v1/listen?model=nova-3&smart_format=true&utterances=true&punctuate=true''"

definition RunASR :: "'w env \<Rightarrow> string \<Rightarrow> string \<Rightarrow> 'w \<Rightarrow> (string + ASRResult) \<times> 'w" where
  "RunASR env videoBytes apiKey w =
     (let url = deepgram_url
      in case NewRequestWithContext env ''POST'' url videoBytes of
           Inl err \<Rightarrow> (Inl (''create request: '' @ err), w)
         | Inr req0 \<Rightarrow>
             (let req = Header_Set (Header_Set req0 ''Authorization'' (''Token '' @ apiKey))
                          ''Content-Type'' ''video/mp4''
              in case Do env w req of
                   (Inl err, w') \<Rightarrow> (Inl (''deepgram request: '' @ err), w')
                 | (Inr resp, w') \<Rightarrow>
                     if StatusCode resp \<noteq> StatusOK
                     then (Inl (''deepgram returned '' @ Itoa (StatusCode resp) @ '': '' @
                                  data (Body resp)), w')
                     else (case DecodeDeepgram env (Body resp) of
                             Inl err \<Rightarrow> (Inl (''decode response: '' @ err), w')
                           | Inr dgResp \<Rightarrow> (Inr (segment_response dgResp), w'))))"

section \<open>Frame descriptions (\<^verbatim>\<open>RunVLM\<close>, \<^verbatim>\<open>callGemini\<close>)\<close>

record VLMFrame =
  FrameIndex :: int
  TimestampSec :: real
  Description :: string

record VLMResult =
  Frames :: "VLMFrame list"

record KeyframeInput =
  kf_FrameIndex :: int
  kf_TimestampSec :: real
  ImageBytes :: string

text \<open>\<^verbatim>\<open>fmt.Sprintf(vlmPromptTemplate, prevDesc, kf.TimestampSec)\<close>: the template with its
  two verbs filled, the second argument already formatted by \<^verbatim>\<open>%.1f\<close>.\<close>

definition vlmPromptTemplate :: "string \<Rightarrow> string \<Rightarrow> string" where
  "vlmPromptTemplate prevDesc ts =
     ''Analyze this frame from a video advertisement.\<newline>Previous frame context: '' @ prevDesc @
     ''\<newline>Timestamp: '' @ ts @
     ''s\<newline>\<newline>Describe in 2-3 sentences covering:\<newline>'' @
     ''1. What is happening visually (people, product, setting, action)\<newline>'' @
     ''2. Camera movement and shot type (close-up, wide shot, zoom in, pan, cut, handheld shake, tracking)\<newline>'' @
     ''3. Emotional tone, color palette, pacing feel\<newline>'' @
     ''4. Any motion blur, fast cuts, slow motion, or speed ramp effects\<newline>\<newline>'' @
     ''Be specific and concrete. Use explicit motion vocabulary: cut, zoom, pan, handheld, '' @
     ''slow motion, fast cut, tracking shot, static shot, dolly, whip pan.''"

definition geminiBaseURL :: string where
  "geminiBaseURL = ''https://generativelanguage.googleapis.com''"

text \<open>The locals \<^verbatim>\<open>url\<close> and \<^verbatim>\<open>reqBody\<close> of \<^verbatim>\<open>callGemini\<close>.\<close>

definition gemini_url :: "string \<Rightarrow> string" where
  "gemini_url apiKey =
     geminiBaseURL @ ''/v1beta/models/gemini-2.0-flash:generateContent?key='' @ apiKey"

definition gemini_reqBody :: "'w env \<Rightarrow> string \<Rightarrow> string \<Rightarrow> geminiRequest" where
  "gemini_reqBody env imageBytes prompt =
     \<lparr>Contents = [\<lparr>Parts =
        [\<lparr>part_Text = prompt, InlineData = None\<rparr>,
         \<lparr>part_Text = [], InlineData = Some \<lparr>MimeType = ''image/jpeg'',
            Data = EncodeToString env imageBytes\<rparr>\<rparr>]\<rparr>]\<rparr>"

definition callGemini :: "'w env \<Rightarrow> string \<Rightarrow> string \<Rightarrow> string \<Rightarrow> 'w \<Rightarrow> (string + string) \<times> 'w" where
  "callGemini env apiKey imageBytes prompt w =
     (let url = gemini_url apiKey;
          reqBody = gemini_reqBody env imageBytes prompt
      in case Marshal env reqBody of
           Inl err \<Rightarrow> (Inl (''marshal request: '' @ err), w)
         | Inr bodyBytes \<Rightarrow>
             (case NewRequestWithContext env ''POST'' url bodyBytes of
                Inl err \<Rightarrow> (Inl (''create request: '' @ err), w)
              | Inr req0 \<Rightarrow>
                  (case Do env w (Header_Set req0 ''Content-Type'' ''application/json'') of
                     (Inl err, w') \<Rightarrow> (Inl (''gemini request: '' @ err), w')
                   | (Inr resp, w') \<Rightarrow>
                       (case read_err (Body resp) of
                          Some err \<Rightarrow> (Inl (''read response: '' @ err), w')
                        | None \<Rightarrow>
                            if StatusCode resp \<noteq> StatusOK
                            then (Inl (''gemini returned '' @ Itoa (StatusCode resp) @ '': '' @
                                         data (Body resp)), w')
                            else (case Unmarshal env (data (Body resp)) of
                                    Inl err \<Rightarrow> (Inl (''decode response: '' @ err), w')
                                  | Inr gemResp \<Rightarrow>
                                      (case Error gemResp of
                                         Some msg \<Rightarrow> (Inl (''gemini error: '' @ msg), w')
                                       | None \<Rightarrow>
                                           if length (Candidates gemResp) = 0 \<or>
                                              length (hd (Candidates gemResp)) = 0
                                           then (Inl ''empty response from gemini'', w')
                                           else (Inr (TrimSpace (hd (hd (Candidates gemResp)))),
                                                 w')))))))"

text \<open>A history variable of the loop of \<^verbatim>\<open>RunVLM\<close>: for each iteration, the state of
  the network before the call, the prompt handed to \<^verbatim>\<open>callGemini\<close> and what it returned. The
  program never reads it.\<close>

record 'w gemini_call =
  call_net :: 'w
  call_prompt :: string
  call_result :: "string + string"

text \<open>The variables of \<^verbatim>\<open>RunVLM\<close>: \<^verbatim>\<open>result\<close> and \<^verbatim>\<open>prevDesc\<close>, with the network and the
  history.\<close>

record 'w vlm_state =
  result :: VLMResult
  prevDesc :: string
  net :: 'w
  calls :: "'w gemini_call list"

definition vlm_init :: "'w \<Rightarrow> 'w vlm_state" where
  "vlm_init w = \<lparr>result = \<lparr>Frames = []\<rparr>, prevDesc = ''This is the first frame of the ad.'',
                 net = w, calls = []\<rparr>"

text \<open>One iteration of \<^verbatim>\<open>for _, kf := range keyframes\<close>.\<close>

definition vlm_body :: "'w env \<Rightarrow> string \<Rightarrow> 'w vlm_state \<Rightarrow> KeyframeInput \<Rightarrow> 'w vlm_state" where
  "vlm_body env apiKey st kf =
     (let prompt = vlmPromptTemplate (prevDesc st) (format_f1 env (kf_TimestampSec kf));
          ret = callGemini env apiKey (ImageBytes kf) prompt (net st);
          desc = (case fst ret of Inl err \<Rightarrow> ''[Error: '' @ err @ '']'' | Inr d \<Rightarrow> d)
      in st\<lparr>result := (result st)\<lparr>Frames := Frames (result st) @
                 [\<lparr>FrameIndex = kf_FrameIndex kf, TimestampSec = kf_TimestampSec kf,
                   Description = desc\<rparr>]\<rparr>,
            prevDesc := (case fst ret of Inl err \<Rightarrow> prevDesc st | Inr d \<Rightarrow> desc),
            net := snd ret,
            calls := calls st @
              [\<lparr>call_net = net st, call_prompt = prompt, call_result = fst ret\<rparr>]\<rparr>)"

fun vlm_loop :: "'w env \<Rightarrow> string \<Rightarrow> KeyframeInput list \<Rightarrow> 'w vlm_state \<Rightarrow> 'w vlm_state" where
  "vlm_loop env apiKey [] st = st"
| "vlm_loop env apiKey (kf # kfs) st = vlm_loop env apiKey kfs (vlm_body env apiKey st kf)"

text \<open>\<^verbatim>\<open>RunVLM\<close> has one return, \<^verbatim>\<open>return result, nil\<close>.\<close>

definition RunVLM :: "'w env \<Rightarrow> KeyframeInput list \<Rightarrow> string \<Rightarrow> 'w \<Rightarrow> (string + VLMResult) \<times> 'w" where
  "RunVLM env keyframes apiKey w =
     (let st = vlm_loop env apiKey keyframes (vlm_init w)
      in (Inr (result st), net st))"

section \<open>The object store client (\<^verbatim>\<open>internal/r2\<close>)\<close>

record KeyframeMeta =
  Index :: int
  FrameNumber :: int
  km_TimestampSec :: real
  EntropyScore :: real
  R2Key :: string

text \<open>The S3 API and the JSON decoder behind \<^verbatim>\<open>r2.Client\<close>: \<^verbatim>\<open>GetObject\<close> on the client's
  bucket, over a store state \<open>'s\<close>, and the decoding of \<^verbatim>\<open>KeyframeMetadataFile\<close> to its
  \<^verbatim>\<open>Keyframes\<close>.\<close>

record 's Client =
  GetObject :: "'s \<Rightarrow> string \<Rightarrow> (string + http_body) \<times> 's"
  DecodeMetadata :: "http_body \<Rightarrow> string + KeyframeMeta list"

text \<open>\<^verbatim>\<open>io.ReadAll\<close>, for a caller that drops the bytes when there is an error.\<close>

definition ReadAll :: "http_body \<Rightarrow> string + string" where
  "ReadAll body = (case read_err body of Some err \<Rightarrow> Inl err | None \<Rightarrow> Inr (data body))"

definition DownloadVideo :: "'s Client \<Rightarrow> string \<Rightarrow> 's \<Rightarrow> (string + string) \<times> 's" where
  "DownloadVideo c adID s =
     (let key = ''ads/'' @ adID @ ''/video.mp4''
      in case GetObject c s key of
           (Inl err, s') \<Rightarrow> (Inl (''download video '' @ key @ '': '' @ err), s')
         | (Inr out, s') \<Rightarrow> (ReadAll out, s'))"

definition DownloadKeyframeMetadata :: "'s Client \<Rightarrow> string \<Rightarrow> 's \<Rightarrow> (string + KeyframeMeta list) \<times> 's" where
  "DownloadKeyframeMetadata c adID s =
     (let key = ''ads/'' @ adID @ ''/keyframes/metadata.json''
      in case GetObject c s key of
           (Inl err, s') \<Rightarrow> (Inl (''download metadata '' @ key @ '': '' @ err), s')
         | (Inr out, s') \<Rightarrow>
             (case DecodeMetadata c out of
                Inl err \<Rightarrow> (Inl (''decode metadata: '' @ err), s')
              | Inr keyframes \<Rightarrow> (Inr keyframes, s')))"

text \<open>The loop of \<^verbatim>\<open>DownloadKeyframeImages\<close> over \<^verbatim>\<open>metas\<close>, filling the map \<^verbatim>\<open>images\<close>;
  the first failure returns.\<close>

fun images_loop :: "'s Client \<Rightarrow> KeyframeMeta list \<Rightarrow> (string \<rightharpoonup> string) \<Rightarrow> 's \<Rightarrow>
    (string + (string \<rightharpoonup> string)) \<times> 's" where
  "images_loop c [] images s = (Inr images, s)"
| "images_loop c (m # ms) images s =
     (case GetObject c s (R2Key m) of
        (Inl err, s') \<Rightarrow> (Inl (''download keyframe '' @ R2Key m @ '': '' @ err), s')
      | (Inr out, s') \<Rightarrow>
          (case ReadAll out of
             Inl err \<Rightarrow> (Inl (''read keyframe '' @ R2Key m @ '': '' @ err), s')
           | Inr dat \<Rightarrow> images_loop c ms (images(R2Key m \<mapsto> dat)) s'))"

definition DownloadKeyframeImages :: "'s Client \<Rightarrow> string \<Rightarrow> KeyframeMeta list \<Rightarrow> 's \<Rightarrow>
    (string + (string \<rightharpoonup> string)) \<times> 's" where
  "DownloadKeyframeImages c adID metas s = images_loop c metas Map.empty s"

section \<open>The extraction request handler (\<^verbatim>\<open>ExtractHandler.ServeHTTP\<close>)\<close>

record Config =
  R2EndpointURL :: string
  R2AccessKeyID :: string
  R2SecretAccessKey :: string
  R2Bucket :: string
  DeepgramAPIKey :: string
  GeminiAPIKey :: string
  Port :: string

record extractRequest =
  AdID :: string

text \<open>The handler's two fields, and the JSON decoder of the request body.\<close>

record 's ExtractHandler =
  cfg :: Config
  r2 :: "'s Client"
  DecodeRequest :: "string \<Rightarrow> string + extractRequest"

record Request =
  Method :: string
  request_Body :: string

record streamResult =
  Stream :: string
  Status :: string
  ResultCount :: int
  sr_R2Key :: string
  sr_Error :: string

text \<open>
  The handler starts each stream in a goroutine of its own or records it as skipped; what the
  goroutines do afterwards, and the order in which their results arrive, is not modelled. The
  handler is followed up to that point: it has either answered with \<^verbatim>\<open>http.Error\<close> and
  returned, or decided for each stream whether it is started, and with which arguments.
\<close>

datatype asr_stream = ASR_started string string | ASR_skipped streamResult

datatype vlm_stream = VLM_started string "KeyframeInput list" | VLM_skipped streamResult

datatype served = http_Error string int | Streams asr_stream vlm_stream

text \<open>\<^verbatim>\<open>for _, m := range keyframeMetas\<close>: a keyframe input for each metadata entry whose image
  is in the map.\<close>

fun keyframe_inputs :: "KeyframeMeta list \<Rightarrow> (string \<rightharpoonup> string) \<Rightarrow> KeyframeInput list \<Rightarrow> KeyframeInput list" where
  "keyframe_inputs [] images keyframeInputs = keyframeInputs"
| "keyframe_inputs (m # ms) images keyframeInputs =
     keyframe_inputs ms images
       (case images (R2Key m) of
          Some imgBytes \<Rightarrow> keyframeInputs @
            [\<lparr>kf_FrameIndex = Index m, kf_TimestampSec = km_TimestampSec m, ImageBytes = imgBytes\<rparr>]
        | None \<Rightarrow> keyframeInputs)"

text \<open>The downloads of keyframe metadata and images. A failed metadata download sets
  \<^verbatim>\<open>keyframeMetas = nil\<close>; for a list that is empty but not nil the code calls
  \<^verbatim>\<open>DownloadKeyframeImages\<close>, which then fetches nothing and returns an empty map, so the
  test \<^verbatim>\<open>keyframeMetas != nil\<close> is the test for a list that is not empty.\<close>

definition gather_keyframes :: "'s ExtractHandler \<Rightarrow> string \<Rightarrow> 's \<Rightarrow> KeyframeInput list \<times> 's" where
  "gather_keyframes h adID s =
     (case DownloadKeyframeMetadata (r2 h) adID s of
        (Inl err, s1) \<Rightarrow> ([], s1)
      | (Inr keyframeMetas, s1) \<Rightarrow>
          if keyframeMetas \<noteq> []
          then (case DownloadKeyframeImages (r2 h) adID keyframeMetas s1 of
                  (Inl err, s2) \<Rightarrow> ([], s2)
                | (Inr images, s2) \<Rightarrow> (keyframe_inputs keyframeMetas images [], s2))
          else ([], s1))"

definition asr_gate :: "'s ExtractHandler \<Rightarrow> string \<Rightarrow> string \<Rightarrow> asr_stream" where
  "asr_gate h adID videoBytes =
     (if DeepgramAPIKey (cfg h) \<noteq> ''''
      then ASR_started adID videoBytes
      else ASR_skipped \<lparr>Stream = ''asr'', Status = ''skipped'', ResultCount = 0, sr_R2Key = '''',
                        sr_Error = ''DEEPGRAM_API_KEY not configured''\<rparr>)"

definition vlm_gate :: "'s ExtractHandler \<Rightarrow> string \<Rightarrow> KeyframeInput list \<Rightarrow> vlm_stream" where
  "vlm_gate h adID keyframeInputs =
     (if GeminiAPIKey (cfg h) \<noteq> '''' \<and> length keyframeInputs > 0
      then VLM_started adID keyframeInputs
      else (let reason = (if length keyframeInputs = 0 then ''no keyframe images available''
                          else ''GEMINI_API_KEY not configured'')
            in VLM_skipped \<lparr>Stream = ''vlm'', Status = ''skipped'', ResultCount = 0,
                            sr_R2Key = '''', sr_Error = reason\<rparr>))"

definition StatusMethodNotAllowed :: int where
  "StatusMethodNotAllowed = 405"

definition StatusBadRequest :: int where
  "StatusBadRequest = 400"

definition StatusInternalServerError :: int where
  "StatusInternalServerError = 500"

definition ServeHTTP :: "'s ExtractHandler \<Rightarrow> Request \<Rightarrow> 's \<Rightarrow> served \<times> 's" where
  "ServeHTTP h req s =
     (if Method req \<noteq> ''POST'' then (http_Error ''method not allowed'' StatusMethodNotAllowed, s)
      else case DecodeRequest h (request_Body req) of
             Inl err \<Rightarrow> (http_Error ''invalid request body'' StatusBadRequest, s)
           | Inr body \<Rightarrow>
               if AdID body = '''' then (http_Error ''ad_id is required'' StatusBadRequest, s)
               else (case DownloadVideo (r2 h) (AdID body) s of
                       (Inl err, s0) \<Rightarrow>
                         (http_Error (''download video: '' @ err) StatusInternalServerError, s0)
                     | (Inr videoBytes, s0) \<Rightarrow>
                         (case gather_keyframes h (AdID body) s0 of
                            (keyframeInputs, s2) \<Rightarrow>
                              (Streams (asr_gate h (AdID body) videoBytes)
                                       (vlm_gate h (AdID body) keyframeInputs), s2))))"

section \<open>Predicates of the specification\<close>

text \<open>A text that is not empty and has no white space at either end.\<close>

definition clean_text :: "string \<Rightarrow> bool" where
  "clean_text t = (t \<noteq> [] \<and> \<not> isSpace (hd t) \<and> \<not> isSpace (last t))"

text \<open>The invariant the specification gives a segment: \<open>end \<ge> start\<close>, and a text that is not
  empty and is trimmed.\<close>

definition segment_invariant :: "ASRSegment \<Rightarrow> bool" where
  "segment_invariant s = (End s \<ge> Start s \<and> clean_text (Text s))"

text \<open>Word entries as a recogniser emits them: no word ends before it starts, starts do not
  decrease, and every token is a trimmed text that is not empty.\<close>

definition wellformed_words :: "wordEntry list \<Rightarrow> bool" where
  "wellformed_words ws =
     ((\<forall>w\<in>set ws. w_Start w \<le> w_End w \<and> clean_text (Word w)) \<and> sorted (map w_Start ws))"

text \<open>The specification's context for the next prompt: "the last successful description, or
  the initial sentinel if no frame has yet succeeded", over the results of the calls made so
  far.\<close>

definition successes :: "(string + string) list \<Rightarrow> string list" where
  "successes rs = concat (map (\<lambda>r. case r of Inl err \<Rightarrow> [] | Inr d \<Rightarrow> [d]) rs)"

definition most_recent_success :: "string \<Rightarrow> (string + string) list \<Rightarrow> string" where
  "most_recent_success sentinel rs = (if successes rs = [] then sentinel else last (successes rs))"

text \<open>The failures that \<^verbatim>\<open>callGemini\<close> tests for in what the HTTP client returned: a
  transport error, a status that is not OK, a body that does not decode, and a decoded response
  with no candidate or with a first candidate without parts (its "empty response").\<close>

definition detected_failure :: "'w env \<Rightarrow> string + http_response \<Rightarrow> bool" where
  "detected_failure env reply =
     (case reply of
        Inl err \<Rightarrow> True
      | Inr resp \<Rightarrow>
          StatusCode resp \<noteq> StatusOK \<or>
          (case Unmarshal env (data (Body resp)) of
             Inl err \<Rightarrow> True
           | Inr gemResp \<Rightarrow> Candidates gemResp = [] \<or> hd (Candidates gemResp) = []))"

text \<open>The specification's "empty generated content": the decoded response carries no generated
  text, because there is no candidate, the first candidate has no parts, or the text of its
  first part is empty.\<close>

definition empty_generated_content :: "geminiResponse \<Rightarrow> bool" where
  "empty_generated_content gemResp =
     (case Candidates gemResp of
        [] \<Rightarrow> True
      | parts # cands \<Rightarrow> (case parts of [] \<Rightarrow> True | t # ts \<Rightarrow> t = ''''))"

text \<open>The specification's failures of a provider call, in its words: "transport error,
  non-success status, malformed response, or empty generated content".\<close>

definition spec_provider_failure :: "'w env \<Rightarrow> string + http_response \<Rightarrow> bool" where
  "spec_provider_failure env reply =
     (case reply of
        Inl err \<Rightarrow> True
      | Inr resp \<Rightarrow>
          StatusCode resp \<noteq> StatusOK \<or>
          (case Unmarshal env (data (Body resp)) of
             Inl err \<Rightarrow> True
           | Inr gemResp \<Rightarrow> empty_generated_content gemResp))"

text \<open>For the proofs about \<^verbatim>\<open>RunVLM\<close>: the state of the loop after the keyframes \<open>kfs\<close>,
  from the network state \<open>w\<close>.\<close>

definition vlm_inv :: "'w env \<Rightarrow> string \<Rightarrow> 'w \<Rightarrow> KeyframeInput list \<Rightarrow> 'w vlm_state \<Rightarrow> bool" where
  "vlm_inv env apiKey w kfs st =
     (length (Frames (result st)) = length kfs \<and> length (calls st) = length kfs \<and>
      prevDesc st =
        most_recent_success ''This is the first frame of the ad.'' (map call_result (calls st)) \<and>
      net st =
        (if kfs = [] then w
         else snd (callGemini env apiKey (ImageBytes (last kfs)) (call_prompt (last (calls st)))
                     (call_net (last (calls st))))) \<and>
      (\<forall>i<length kfs.
         FrameIndex (Frames (result st) ! i) = kf_FrameIndex (kfs ! i) \<and>
         TimestampSec (Frames (result st) ! i) = kf_TimestampSec (kfs ! i) \<and>
         Description (Frames (result st) ! i) =
           (case call_result (calls st ! i) of
              Inl reason \<Rightarrow> ''[Error: '' @ reason @ '']'' | Inr d \<Rightarrow> d) \<and>
         call_prompt (calls st ! i) =
           vlmPromptTemplate
             (most_recent_success ''This is the first frame of the ad.''
                (map call_result (take i (calls st))))
             (format_f1 env (kf_TimestampSec (kfs ! i))) \<and>
         call_result (calls st ! i) =
           fst (callGemini env apiKey (ImageBytes (kfs ! i)) (call_prompt (calls st ! i))
                  (call_net (calls st ! i))) \<and>
         call_net (calls st ! i) =
           (if i = 0 then w
            else snd (callGemini env apiKey (ImageBytes (kfs ! (i - 1)))
                        (call_prompt (calls st ! (i - 1))) (call_net (calls st ! (i - 1)))))))"

text \<open>For the proofs about the chunker: the segments closed so far are the joins of chunks that
  are not empty, and these chunks followed by the open chunk are the tokens read so far.\<close>

definition chunks_of :: "chunk_state \<Rightarrow> string list \<Rightarrow> bool" where
  "chunks_of st toks = (\<exists>cs. (\<forall>c\<in>set cs. c \<noteq> []) \<and>
      map Text (segments st) = map (\<lambda>c. Join c '' '') cs \<and> concat cs @ chunk st = toks)"

section \<open>Environments of the tests\<close>

text \<open>The server of \<^verbatim>\<open>TestRunASR_Utterances\<close> followed by the server of
  \<^verbatim>\<open>TestRunASR_ServerError\<close>: the network state counts the requests; the first is answered
  with the three utterances of the test, every later one with status 500.\<close>

definition asr_test_env :: "nat env" where
  "asr_test_env =
     \<lparr>url_error = (\<lambda>url. None),
      Do = (\<lambda>n req.
        (Inr (if n = 0
              then \<lparr>StatusCode = 200, Body = \<lparr>data = ''utterances'', read_err = None\<rparr>\<rparr>
              else \<lparr>StatusCode = 500, Body = \<lparr>data = ''internal error'', read_err = None\<rparr>\<rparr>),
         Suc n)),
      DecodeDeepgram = (\<lambda>body.
        if data body = ''utterances''
        then Inr \<lparr>Utterances =
                   [\<lparr>u_Start = 0.0, u_End = 2.5, Transcript = ''Hello world''\<rparr>,
                    \<lparr>u_Start = 3.0, u_End = 5.0, Transcript = ''  Buy now  ''\<rparr>,
                    \<lparr>u_Start = 6.0, u_End = 7.0, Transcript = ''   ''\<rparr>],
                 Channels = []\<rparr>
        else Inl ''invalid character''),
      Marshal = (\<lambda>reqBody. Inr ''{}''),
      Unmarshal = (\<lambda>respBody. Inl ''invalid character''),
      EncodeToString = (\<lambda>src. src),
      format_f1 = (\<lambda>t. ''0.0'')\<rparr>"

text \<open>The decoded response of \<^verbatim>\<open>TestRunASR_FallbackToWords\<close>.\<close>

definition fallback_response :: deepgramResponse where
  "fallback_response =
     \<lparr>Utterances = [],
      Channels = [\<lparr>Alternatives = [\<lparr>Words =
        [\<lparr>Word = ''Buy'', w_Start = 0.0, w_End = 0.5\<rparr>,
         \<lparr>Word = ''this'', w_Start = 0.6, w_End = 1.0\<rparr>,
         \<lparr>Word = ''product'', w_Start = 1.5, w_End = 2.0\<rparr>,
         \<lparr>Word = ''now'', w_Start = 4.0, w_End = 4.5\<rparr>,
         \<lparr>Word = ''and'', w_Start = 5.0, w_End = 5.2\<rparr>,
         \<lparr>Word = ''save'', w_Start = 5.5, w_End = 6.0\<rparr>]\<rparr>]\<rparr>]\<rparr>"

text \<open>The server and the keyframes of \<^verbatim>\<open>TestRunVLM_ErrorContinues\<close>: the first request is
  answered with status 500, every later one with a candidate whose text is "Second frame OK".\<close>

definition vlm_test_env :: "nat env" where
  "vlm_test_env =
     \<lparr>url_error = (\<lambda>url. None),
      Do = (\<lambda>n req.
        (Inr (if n = 0
              then \<lparr>StatusCode = 500, Body = \<lparr>data = ''server error'', read_err = None\<rparr>\<rparr>
              else \<lparr>StatusCode = 200, Body = \<lparr>data = ''candidates'', read_err = None\<rparr>\<rparr>),
         Suc n)),
      DecodeDeepgram = (\<lambda>body. Inl ''invalid character''),
      Marshal = (\<lambda>reqBody. Inr ''{}''),
      Unmarshal = (\<lambda>respBody.
        if respBody = ''candidates''
        then Inr \<lparr>Candidates = [[''Second frame OK'']], Error = None\<rparr>
        else Inl ''invalid character''),
      EncodeToString = (\<lambda>src. src),
      format_f1 = (\<lambda>t. if t = 0 then ''0.0'' else ''1.5'')\<rparr>"

text \<open>The server of \<^verbatim>\<open>TestRunVLM_SequentialProcessing\<close> with an empty text in its first
  answer: both requests are answered with status 200 and one candidate with one part, whose
  text is empty in the first answer and "Second frame OK" in every later one.\<close>

definition empty_text_env :: "nat env" where
  "empty_text_env =
     \<lparr>url_error = (\<lambda>url. None),
      Do = (\<lambda>n req.
        (Inr (if n = 0
              then \<lparr>StatusCode = 200, Body = \<lparr>data = ''empty text'', read_err = None\<rparr>\<rparr>
              else \<lparr>StatusCode = 200, Body = \<lparr>data = ''candidates'', read_err = None\<rparr>\<rparr>),
         Suc n)),
      DecodeDeepgram = (\<lambda>body. Inl ''invalid character''),
      Marshal = (\<lambda>reqBody. Inr ''{}''),
      Unmarshal = (\<lambda>respBody.
        if respBody = ''empty text''
        then Inr \<lparr>Candidates = [['''']], Error = None\<rparr>
        else if respBody = ''candidates''
        then Inr \<lparr>Candidates = [[''Second frame OK'']], Error = None\<rparr>
        else Inl ''invalid character''),
      EncodeToString = (\<lambda>src. src),
      format_f1 = (\<lambda>t. if t = 0 then ''0.0'' else ''1.5'')\<rparr>"

definition test_keyframes :: "KeyframeInput list" where
  "test_keyframes =
     [\<lparr>kf_FrameIndex = 0, kf_TimestampSec = 0.0, ImageBytes = ''img1''\<rparr>,
      \<lparr>kf_FrameIndex = 3, kf_TimestampSec = 1.5, ImageBytes = ''img2''\<rparr>]"

text \<open>A handler with both credentials over a store that holds, when its state is \<open>True\<close>, the
  video of the ad \<^verbatim>\<open>test-ad\<close> and nothing else, and nothing at all when its state is
  \<open>False\<close>. The request decoder takes the body for the ad identifier.\<close>

definition test_handler :: "bool ExtractHandler" where
  "test_handler =
     \<lparr>cfg = \<lparr>R2EndpointURL = [], R2AccessKeyID = [], R2SecretAccessKey = [],
              R2Bucket = ''entropy-frames'', DeepgramAPIKey = ''dg-key'', GeminiAPIKey = ''gm-key'',
              Port = ''8080''\<rparr>,
      r2 = \<lparr>GetObject = (\<lambda>present key.
               (if present \<and> key = ''ads/test-ad/video.mp4''
                then Inr \<lparr>data = ''video-bytes'', read_err = None\<rparr>
                else Inl ''NoSuchKey'', present)),
             DecodeMetadata = (\<lambda>body. Inl ''unexpected end of JSON input'')\<rparr>,
      DecodeRequest = (\<lambda>body. Inr \<lparr>AdID = body\<rparr>)\<rparr>"

text \<open>The word list of \<^verbatim>\<open>TestGroupWordsIntoChunks_BasicChunking\<close>.\<close>

definition basic_words :: "wordEntry list" where
  "basic_words =
     [\<lparr>Word = ''Hello'', w_Start = 0.0, w_End = 0.5\<rparr>,
      \<lparr>Word = ''world'', w_Start = 0.6, w_End = 1.0\<rparr>,
      \<lparr>Word = ''this'', w_Start = 1.1, w_End = 1.5\<rparr>,
      \<lparr>Word = ''is'', w_Start = 1.6, w_End = 2.0\<rparr>,
      \<lparr>Word = ''a'', w_Start = 3.0, w_End = 3.2\<rparr>,
      \<lparr>Word = ''test'', w_Start = 3.3, w_End = 3.5\<rparr>]"

section \<open>Properties of the chunker\<close>

text \<open>
  Claim C5, as amended. On the six words of the basic chunking test with chunk duration 3.0
  the chunker returns exactly two segments: "Hello world this is a" from 0.0 to 3.2, closed by
  the word "a" because 3.2 - 0.0 reaches 3.0, and "test" from 3.3 to 3.5. The second segment
  starts at 3.3, the start of its own first word. On these words the comparisons of the loop
  come out the same in \<^verbatim>\<open>float64\<close> as in the reals.
\<close>

theorem groupWordsIntoChunks_basic:
  "groupWordsIntoChunks basic_words 3.0 =
     [\<lparr>Start = 0.0, End = 3.2, Text = ''Hello world this is a''\<rparr>,
      \<lparr>Start = 3.3, End = 3.5, Text = ''test''\<rparr>]"
  by (simp add: groupWordsIntoChunks_def basic_words_def chunk_init_def chunk_body_def Let_def)

text \<open>
  Claim C5, as stated, gives the second segment the start 3.2, the end of the first segment.
  The code does not return that list.
\<close>

theorem groupWordsIntoChunks_basic_second_start_counterexample:
  "groupWordsIntoChunks basic_words 3.0 \<noteq>
     [\<lparr>Start = 0.0, End = 3.2, Text = ''Hello world this is a''\<rparr>,
      \<lparr>Start = 3.2, End = 3.5, Text = ''test''\<rparr>]"
  by (simp add: groupWordsIntoChunks_def basic_words_def chunk_init_def chunk_body_def Let_def)


subsection \<open>Joining\<close>

lemma Join_append:
  "xs \<noteq> [] \<Longrightarrow> ys \<noteq> [] \<Longrightarrow> Join (xs @ ys) sep = Join xs sep @ sep @ Join ys sep"
proof (induction xs sep rule: Join.induct)
  case (1 sep)
  then show ?case by simp
next
  case (2 x sep)
  then show ?case by (cases ys) simp_all
next
  case (3 x y ys' sep)
  then show ?case by simp
qed

lemma Join_nonempty:
  "xs \<noteq> [] \<Longrightarrow> \<forall>x\<in>set xs. x \<noteq> [] \<Longrightarrow> Join xs sep \<noteq> []"
  by (induction xs sep rule: Join.induct) simp_all

lemma Join_concat:
  "\<forall>c\<in>set cs. c \<noteq> [] \<Longrightarrow> Join (map (\<lambda>c. Join c sep) cs) sep = Join (concat cs) sep"
proof (induction cs)
  case Nil
  then show ?case by simp
next
  case (Cons c cs)
  show ?case
  proof (cases cs)
    case Nil
    then show ?thesis by simp
  next
    case (Cons d ds)
    with Cons.prems have ne: "c \<noteq> []" "concat cs \<noteq> []" by auto
    have "Join (map (\<lambda>c. Join c sep) (c # cs)) sep = Join c sep @ sep @ Join (map (\<lambda>c. Join c sep) cs) sep"
      using Cons by simp
    also have "\<dots> = Join c sep @ sep @ Join (concat cs) sep"
      using Cons.IH Cons.prems by simp
    also have "\<dots> = Join (c @ concat cs) sep"
      using Join_append [OF ne] by simp
    finally show ?thesis by simp
  qed
qed

lemma hd_Join: "xs \<noteq> [] \<Longrightarrow> hd xs \<noteq> [] \<Longrightarrow> hd (Join xs sep) = hd (hd xs)"
  by (induction xs sep rule: Join.induct) simp_all

lemma Join_last_nonempty: "xs \<noteq> [] \<Longrightarrow> last xs \<noteq> [] \<Longrightarrow> Join xs sep \<noteq> []"
  by (induction xs sep rule: Join.induct) (simp_all split: if_splits)

lemma last_Join: "xs \<noteq> [] \<Longrightarrow> last xs \<noteq> [] \<Longrightarrow> last (Join xs sep) = last (last xs)"
proof (induction xs sep rule: Join.induct)
  case (1 sep)
  then show ?case by simp
next
  case (2 x sep)
  then show ?case by simp
next
  case (3 x y ys sep)
  then have l: "last (y # ys) \<noteq> []" by simp
  have ne: "Join (y # ys) sep \<noteq> []"
    using Join_last_nonempty [OF _ l] by simp
  have "last (Join (x # y # ys) sep) = last (Join (y # ys) sep)"
    using ne by simp
  also have "\<dots> = last (last (y # ys))"
    using 3 l by simp
  finally show ?case by simp
qed

subsection \<open>Invariants of the chunking loop\<close>

lemma chunk_body_cases:
  "chunk_body D st w =
     (let start = (if started st then chunkStart st else w_Start w)
      in if D \<le> w_End w - start
         then \<lparr>segments = segments st @ [\<lparr>Start = start, End = w_End w, Text = Join (chunk st @ [Word w]) '' ''\<rparr>],
               chunk = [], chunkStart = start, started = False\<rparr>
         else \<lparr>segments = segments st, chunk = chunk st @ [Word w], chunkStart = start, started = True\<rparr>)"
  by (cases st) (simp add: chunk_body_def Let_def)

lemma chunk_body_started:
  "started (chunk_body D st w) = (chunk (chunk_body D st w) \<noteq> [])"
  by (simp add: chunk_body_cases Let_def)

lemma chunk_loop_started:
  "started st = (chunk st \<noteq> []) \<Longrightarrow> started (chunk_loop D ws st) = (chunk (chunk_loop D ws st) \<noteq> [])"
  by (induction ws arbitrary: st) (simp_all add: chunk_body_started)

lemma Join_snoc_nonempty: "t \<noteq> [] \<Longrightarrow> Join (c @ [t]) sep \<noteq> []"
  using Join_last_nonempty [of "c @ [t]" sep] by simp

lemma chunk_loop_texts:
  assumes "\<forall>w\<in>set ws. Word w \<noteq> []" and "\<forall>s\<in>set (segments st). Text s \<noteq> []"
  shows "\<forall>s\<in>set (segments (chunk_loop D ws st)). Text s \<noteq> []"
  using assms
proof (induction ws arbitrary: st)
  case Nil
  then show ?case by simp
next
  case (Cons w ws)
  have "\<forall>s\<in>set (segments (chunk_body D st w)). Text s \<noteq> []"
    using Cons.prems by (auto simp: chunk_body_cases Let_def Join_snoc_nonempty)
  with Cons show ?case by simp
qed

lemma chunk_body_chunks:
  assumes "chunks_of st toks"
  shows "chunks_of (chunk_body D st w) (toks @ [Word w])"
proof -
  from assms obtain cs where cs: "\<forall>c\<in>set cs. c \<noteq> []"
    "map Text (segments st) = map (\<lambda>c. Join c '' '') cs" "concat cs @ chunk st = toks"
    unfolding chunks_of_def by blast
  let ?start = "if started st then chunkStart st else w_Start w"
  show ?thesis
  proof (cases "D \<le> w_End w - ?start")
    case True
    have "(\<forall>c\<in>set (cs @ [chunk st @ [Word w]]). c \<noteq> []) \<and>
      map Text (segments (chunk_body D st w)) = map (\<lambda>c. Join c '' '') (cs @ [chunk st @ [Word w]]) \<and>
      concat (cs @ [chunk st @ [Word w]]) @ chunk (chunk_body D st w) = toks @ [Word w]"
      using True cs by (simp add: chunk_body_cases Let_def)
    then show ?thesis unfolding chunks_of_def by blast
  next
    case False
    have "(\<forall>c\<in>set cs. c \<noteq> []) \<and>
      map Text (segments (chunk_body D st w)) = map (\<lambda>c. Join c '' '') cs \<and>
      concat cs @ chunk (chunk_body D st w) = toks @ [Word w]"
      using False cs by (simp add: chunk_body_cases Let_def)
    then show ?thesis unfolding chunks_of_def by blast
  qed
qed

lemma chunk_loop_chunks:
  "chunks_of st toks \<Longrightarrow> chunks_of (chunk_loop D ws st) (toks @ map Word ws)"
proof (induction ws arbitrary: st toks)
  case Nil
  then show ?case by simp
next
  case (Cons w ws)
  from Cons.IH [OF chunk_body_chunks [OF Cons.prems, of D w]]
  show ?case by simp
qed

lemma chunks_of_init: "chunks_of chunk_init []"
  unfolding chunks_of_def chunk_init_def by simp

lemma groupWords_texts_join:
  "Join (map Text (groupWordsIntoChunks words D)) '' '' = Join (map Word words) '' ''"
proof -
  let ?st = "chunk_loop D words chunk_init"
  have "chunks_of ?st (map Word words)"
    using chunk_loop_chunks [OF chunks_of_init, of D words] by simp
  then obtain cs where cs: "\<forall>c\<in>set cs. c \<noteq> []"
    "map Text (segments ?st) = map (\<lambda>c. Join c '' '') cs" "concat cs @ chunk ?st = map Word words"
    unfolding chunks_of_def by blast
  show ?thesis
  proof (cases "chunk ?st = []")
    case True
    then have "groupWordsIntoChunks words D = segments ?st"
      by (simp add: groupWordsIntoChunks_def Let_def)
    then show ?thesis using cs True Join_concat [OF cs(1), of "'' ''"] by simp
  next
    case False
    then have w: "words \<noteq> []" by (auto simp: chunk_init_def)
    then have "map Text (groupWordsIntoChunks words D) = map (\<lambda>c. Join c '' '') (cs @ [chunk ?st])"
      using False cs by (simp add: groupWordsIntoChunks_def Let_def)
    moreover have "\<forall>c\<in>set (cs @ [chunk ?st]). c \<noteq> []" using cs False by simp
    ultimately show ?thesis using Join_concat [of "cs @ [chunk ?st]" "'' ''"] cs by simp
  qed
qed

lemma chunk_loop_times:
  assumes "\<forall>s\<in>set (segments st). Start s \<in> w_Start ` (P \<union> set ws) \<and> End s \<in> w_End ` (P \<union> set ws)"
    and "started st \<longrightarrow> chunkStart st \<in> w_Start ` (P \<union> set ws)"
  shows "(\<forall>s\<in>set (segments (chunk_loop D ws st)).
            Start s \<in> w_Start ` (P \<union> set ws) \<and> End s \<in> w_End ` (P \<union> set ws)) \<and>
         (started (chunk_loop D ws st) \<longrightarrow> chunkStart (chunk_loop D ws st) \<in> w_Start ` (P \<union> set ws))"
  using assms
proof (induction ws arbitrary: st P)
  case Nil
  then show ?case by simp
next
  case (Cons w ws)
  let ?b = "chunk_body D st w"
  have eq: "insert w P \<union> set ws = P \<union> set (w # ws)" by auto
  have 1: "\<forall>s\<in>set (segments ?b). Start s \<in> w_Start ` (insert w P \<union> set ws) \<and> End s \<in> w_End ` (insert w P \<union> set ws)"
    using Cons.prems unfolding eq by (auto simp: chunk_body_cases Let_def)
  have 2: "started ?b \<longrightarrow> chunkStart ?b \<in> w_Start ` (insert w P \<union> set ws)"
    using Cons.prems unfolding eq by (auto simp: chunk_body_cases Let_def)
  from Cons.IH [OF 1 2] show ?case unfolding eq by simp
qed

lemma groupWords_times:
  "\<forall>s\<in>set (groupWordsIntoChunks words D). Start s \<in> w_Start ` set words \<and> End s \<in> w_End ` set words"
proof -
  let ?st = "chunk_loop D words chunk_init"
  have inv: "(\<forall>s\<in>set (segments ?st). Start s \<in> w_Start ` set words \<and> End s \<in> w_End ` set words) \<and>
         (started ?st \<longrightarrow> chunkStart ?st \<in> w_Start ` set words)"
    using chunk_loop_times [of chunk_init "{}" words D] by (simp add: chunk_init_def)
  have st: "started ?st = (chunk ?st \<noteq> [])"
    by (rule chunk_loop_started) (simp add: chunk_init_def)
  show ?thesis
  proof (cases "chunk ?st \<noteq> [] \<and> words \<noteq> []")
    case True
    then have "groupWordsIntoChunks words D = segments ?st @
        [\<lparr>Start = chunkStart ?st, End = w_End (last words), Text = Join (chunk ?st) '' ''\<rparr>]"
      by (simp add: groupWordsIntoChunks_def Let_def)
    moreover have "chunkStart ?st \<in> w_Start ` set words" using inv st True by simp
    moreover have "w_End (last words) \<in> w_End ` set words" using True by simp
    ultimately show ?thesis using inv by auto
  next
    case False
    then have "groupWordsIntoChunks words D = segments ?st"
      by (auto simp: groupWordsIntoChunks_def Let_def)
    then show ?thesis using inv by simp
  qed
qed

lemma chunk_loop_order:
  assumes "\<forall>w\<in>set ws. w_Start w \<le> w_End w" and "sorted (map w_Start ws)"
    and "\<forall>s\<in>set (segments st). Start s \<le> End s"
    and "started st \<longrightarrow> (\<forall>w\<in>set ws. chunkStart st \<le> w_Start w)"
    and "ws \<noteq> []"
  shows "(\<forall>s\<in>set (segments (chunk_loop D ws st)). Start s \<le> End s) \<and>
         (started (chunk_loop D ws st) \<longrightarrow> chunkStart (chunk_loop D ws st) \<le> w_End (last ws))"
  using assms
proof (induction ws arbitrary: st)
  case Nil
  then show ?case by simp
next
  case (Cons w ws)
  let ?b = "chunk_body D st w"
  have w: "w_Start w \<le> w_End w" using Cons.prems(1) by simp
  have cs: "started st \<longrightarrow> chunkStart st \<le> w_Start w" using Cons.prems(4) by simp
  have segs: "\<forall>s\<in>set (segments ?b). Start s \<le> End s"
    using Cons.prems(3) w cs by (auto simp: chunk_body_cases Let_def)
  show ?case
  proof (cases ws)
    case Nil
    have "started ?b \<longrightarrow> chunkStart ?b \<le> w_End w"
      using w cs by (auto simp: chunk_body_cases Let_def)
    with segs Nil show ?thesis by simp
  next
    case (Cons v vs)
    have a: "\<forall>w\<in>set ws. w_Start w \<le> w_End w" using Cons.prems(1) by simp
    have b: "sorted (map w_Start ws)" using Cons.prems(2) by simp
    have c: "started ?b \<longrightarrow> (\<forall>x\<in>set ws. chunkStart ?b \<le> w_Start x)"
      using Cons.prems(2,4) by (auto simp: chunk_body_cases Let_def)
    have d: "ws \<noteq> []" using Cons by simp
    from Cons.IH [OF a b segs c d] d show ?thesis by simp
  qed
qed

lemma groupWords_order:
  assumes "\<forall>w\<in>set words. w_Start w \<le> w_End w" and "sorted (map w_Start words)"
  shows "\<forall>s\<in>set (groupWordsIntoChunks words D). Start s \<le> End s"
proof (cases "words = []")
  case True
  then show ?thesis by (simp add: groupWordsIntoChunks_def chunk_init_def)
next
  case False
  let ?st = "chunk_loop D words chunk_init"
  have inv: "(\<forall>s\<in>set (segments ?st). Start s \<le> End s) \<and>
         (started ?st \<longrightarrow> chunkStart ?st \<le> w_End (last words))"
    by (rule chunk_loop_order [OF assms _ _ False]) (simp_all add: chunk_init_def)
  have st: "started ?st = (chunk ?st \<noteq> [])"
    by (rule chunk_loop_started) (simp add: chunk_init_def)
  show ?thesis using inv st
    by (auto simp: groupWordsIntoChunks_def Let_def)
qed

lemma clean_Join:
  assumes "c \<noteq> []" and "\<forall>t\<in>set c. clean_text t"
  shows "clean_text (Join c sep)"
proof -
  have h: "hd c \<noteq> []" and l: "last c \<noteq> []" using assms by (auto simp: clean_text_def)
  have "hd c \<in> set c" "last c \<in> set c" using assms(1) by simp_all
  then have "\<not> isSpace (hd (hd c))" "\<not> isSpace (last (last c))"
    using assms(2) by (auto simp: clean_text_def)
  then show ?thesis
    using hd_Join [OF assms(1) h, of sep] last_Join [OF assms(1) l, of sep]
      Join_last_nonempty [OF assms(1) l, of sep]
    by (simp add: clean_text_def)
qed

lemma chunk_loop_clean:
  assumes "\<forall>w\<in>set ws. clean_text (Word w)" and "\<forall>s\<in>set (segments st). clean_text (Text s)"
    and "\<forall>t\<in>set (chunk st). clean_text t"
  shows "(\<forall>s\<in>set (segments (chunk_loop D ws st)). clean_text (Text s)) \<and>
         (\<forall>t\<in>set (chunk (chunk_loop D ws st)). clean_text t)"
  using assms
proof (induction ws arbitrary: st)
  case Nil
  then show ?case by simp
next
  case (Cons w ws)
  let ?b = "chunk_body D st w"
  have j: "clean_text (Join (chunk st @ [Word w]) '' '')"
    by (rule clean_Join) (use Cons.prems in auto)
  have 1: "\<forall>s\<in>set (segments ?b). clean_text (Text s)"
    using Cons.prems j by (auto simp: chunk_body_cases Let_def)
  have 2: "\<forall>t\<in>set (chunk ?b). clean_text t"
    using Cons.prems by (auto simp: chunk_body_cases Let_def)
  have 3: "\<forall>w\<in>set ws. clean_text (Word w)" using Cons.prems by simp
  from Cons.IH [OF 3 1 2] show ?case by simp
qed

lemma groupWords_clean:
  assumes "\<forall>w\<in>set words. clean_text (Word w)"
  shows "\<forall>s\<in>set (groupWordsIntoChunks words D). clean_text (Text s)"
proof -
  let ?st = "chunk_loop D words chunk_init"
  have inv: "(\<forall>s\<in>set (segments ?st). clean_text (Text s)) \<and> (\<forall>t\<in>set (chunk ?st). clean_text t)"
    by (rule chunk_loop_clean [OF assms]) (simp_all add: chunk_init_def)
  then have "chunk ?st \<noteq> [] \<Longrightarrow> clean_text (Join (chunk ?st) '' '')"
    using clean_Join by blast
  then show ?thesis using inv
    by (auto simp: groupWordsIntoChunks_def Let_def)
qed

lemma clean_TrimSpace: "TrimSpace s \<noteq> [] \<Longrightarrow> clean_text (TrimSpace s)"
proof -
  assume ne: "TrimSpace s \<noteq> []"
  let ?a = "dropWhile isSpace s"
  let ?b = "dropWhile isSpace (rev ?a)"
  have t: "TrimSpace s = rev ?b" by (simp add: TrimSpace_def)
  from ne t have b: "?b \<noteq> []" by simp
  have a: "?a \<noteq> []"
  proof
    assume "?a = []"
    with b show False by (metis dropWhile.simps(1) rev.simps(1))
  qed
  have hb: "\<not> isSpace (hd ?b)" using b by (rule hd_dropWhile)
  have ha: "\<not> isSpace (hd ?a)" using a by (rule hd_dropWhile)
  have "rev ?a = takeWhile isSpace (rev ?a) @ ?b" by simp
  then have "last (rev ?a) = last ?b" using b by (metis last_appendR)
  then have "last ?b = hd ?a" using a by (simp add: last_rev)
  then have "hd (rev ?b) = hd ?a" using b by (simp add: hd_rev)
  moreover have "last (rev ?b) = hd ?b" using b by (simp add: last_rev)
  ultimately show ?thesis using ha hb b t by (simp add: clean_text_def)
qed

lemma groupWords_final_flush:
  assumes "chunk (chunk_loop D words chunk_init) \<noteq> []"
  shows "groupWordsIntoChunks words D \<noteq> [] \<and>
         End (last (groupWordsIntoChunks words D)) = w_End (last words)"
proof -
  have "words \<noteq> []" using assms by (auto simp: chunk_init_def)
  with assms show ?thesis by (simp add: groupWordsIntoChunks_def Let_def)
qed

lemma groupWords_texts_nonempty:
  assumes "\<forall>w\<in>set words. Word w \<noteq> []"
  shows "\<forall>s\<in>set (groupWordsIntoChunks words D). Text s \<noteq> []"
proof -
  let ?st = "chunk_loop D words chunk_init"
  have inv: "\<forall>s\<in>set (segments ?st). Text s \<noteq> []"
    by (rule chunk_loop_texts [OF assms]) (simp add: chunk_init_def)
  have "chunks_of ?st (map Word words)"
    using chunk_loop_chunks [OF chunks_of_init, of D words] by simp
  then obtain cs where "concat cs @ chunk ?st = map Word words"
    unfolding chunks_of_def by blast
  then have "set (chunk ?st) \<subseteq> Word ` set words"
    by (metis set_append set_map sup_ge2)
  then have "\<forall>t\<in>set (chunk ?st). t \<noteq> []" using assms by fastforce
  then have "chunk ?st \<noteq> [] \<Longrightarrow> Join (chunk ?st) '' '' \<noteq> []"
    by (simp add: Join_nonempty)
  then show ?thesis using inv by (auto simp: groupWordsIntoChunks_def Let_def)
qed

text \<open>
  Claim C10. The chunker consumes every word once and in order: the texts of its segments,
  joined by single spaces, are the tokens of the input joined by single spaces; every segment
  starts at the start time of some input word and ends at the end time of some input word.
\<close>

theorem chunker_consumes_every_word:
  "Join (map Text (groupWordsIntoChunks words D)) '' '' = Join (map Word words) '' '' \<and>
   (\<forall>s\<in>set (groupWordsIntoChunks words D).
      (\<exists>w\<in>set words. Start s = w_Start w) \<and> (\<exists>w\<in>set words. End s = w_End w))"
  using groupWords_texts_join [of words D] groupWords_times [of words D] by auto

theorem chunker_consumes_every_word_witness:
  "Join (map Text (groupWordsIntoChunks basic_words 3.0)) '' '' = ''Hello world this is a test'' \<and>
   Join (map Word basic_words) '' '' = ''Hello world this is a test'' \<and>
   groupWordsIntoChunks basic_words 3.0 \<noteq> [] \<and>
   (\<exists>w\<in>set basic_words. Start (last (groupWordsIntoChunks basic_words 3.0)) = w_Start w) \<and>
   (\<exists>w\<in>set basic_words. End (last (groupWordsIntoChunks basic_words 3.0)) = w_End w)"
proof -
  have g: "groupWordsIntoChunks basic_words 3.0 =
     [\<lparr>Start = 0.0, End = 3.2, Text = ''Hello world this is a''\<rparr>,
      \<lparr>Start = 3.3, End = 3.5, Text = ''test''\<rparr>]"
    by (simp add: groupWordsIntoChunks_def basic_words_def chunk_init_def chunk_body_def Let_def)
  have j: "Join (map Word basic_words) '' '' = ''Hello world this is a test''"
    by (simp add: basic_words_def)
  from chunker_consumes_every_word [of basic_words "3.0"] j g
  show ?thesis by simp
qed

text \<open>
  Claim C3, as amended. When no input token is the empty string, no segment of the chunker has
  an empty text; and for every word list, when a chunk is still open at the end of the input,
  the segment flushed last ends at the end time of the last word.
\<close>

theorem chunker_text_and_final_end:
  "((\<forall>w\<in>set words. Word w \<noteq> '''') \<longrightarrow>
      (\<forall>s\<in>set (groupWordsIntoChunks words D). Text s \<noteq> '''')) \<and>
   (chunk (chunk_loop D words chunk_init) \<noteq> [] \<longrightarrow>
      groupWordsIntoChunks words D \<noteq> [] \<and>
      End (last (groupWordsIntoChunks words D)) = w_End (last words))"
  using groupWords_texts_nonempty [of words D] groupWords_final_flush [of D words] by blast

theorem chunker_text_and_final_end_witness:
  "Word (basic_words ! 0) \<noteq> '''' \<and> Word (basic_words ! 5) \<noteq> '''' \<and>
   chunk (chunk_loop 3.0 basic_words chunk_init) = [''test''] \<and>
   Text (last (groupWordsIntoChunks basic_words 3.0)) = ''test'' \<and>
   End (last (groupWordsIntoChunks basic_words 3.0)) = 3.5 \<and>
   w_End (last basic_words) = 3.5"
proof -
  have w: "\<forall>w\<in>set basic_words. Word w \<noteq> ''''" by (simp add: basic_words_def)
  have c: "chunk (chunk_loop 3.0 basic_words chunk_init) = [''test'']"
    by (simp add: basic_words_def chunk_init_def chunk_body_def Let_def)
  have g: "groupWordsIntoChunks basic_words 3.0 =
     [\<lparr>Start = 0.0, End = 3.2, Text = ''Hello world this is a''\<rparr>,
      \<lparr>Start = 3.3, End = 3.5, Text = ''test''\<rparr>]"
    by (simp add: groupWordsIntoChunks_def basic_words_def chunk_init_def chunk_body_def Let_def)
  from chunker_text_and_final_end [of basic_words "3.0"] w c g
  show ?thesis by (simp add: basic_words_def)
qed

text \<open>
  Claim C3, as stated, holds for every word list. A single word with an empty token is flushed
  as a segment with an empty text.
\<close>

theorem chunker_empty_token_counterexample:
  "groupWordsIntoChunks [\<lparr>Word = '''', w_Start = 0.0, w_End = 0.5\<rparr>] 3.0 =
     [\<lparr>Start = 0.0, End = 0.5, Text = ''''\<rparr>]"
  by (simp add: groupWordsIntoChunks_def chunk_init_def chunk_body_def Let_def)


section \<open>Properties of \<^verbatim>\<open>RunASR\<close>\<close>

lemma utterance_loop_segments:
  "Segments (utterance_loop us r) = Segments r @
     map (\<lambda>u. \<lparr>Start = u_Start u, End = u_End u, Text = TrimSpace (Transcript u)\<rparr>)
       (filter (\<lambda>u. TrimSpace (Transcript u) \<noteq> '''') us)"
  by (induction us arbitrary: r) (simp_all add: Let_def)

lemma segment_response_primary:
  assumes "\<exists>u\<in>set (Utterances dgResp). TrimSpace (Transcript u) \<noteq> ''''"
  shows "segment_response dgResp = \<lparr>Segments =
     map (\<lambda>u. \<lparr>Start = u_Start u, End = u_End u, Text = TrimSpace (Transcript u)\<rparr>)
       (filter (\<lambda>u. TrimSpace (Transcript u) \<noteq> '''') (Utterances dgResp))\<rparr>"
proof -
  let ?r = "utterance_loop (Utterances dgResp) \<lparr>Segments = []\<rparr>"
  have s: "Segments ?r = map (\<lambda>u. \<lparr>Start = u_Start u, End = u_End u, Text = TrimSpace (Transcript u)\<rparr>)
       (filter (\<lambda>u. TrimSpace (Transcript u) \<noteq> '''') (Utterances dgResp))"
    by (simp add: utterance_loop_segments)
  have "filter (\<lambda>u. TrimSpace (Transcript u) \<noteq> '''') (Utterances dgResp) \<noteq> []"
    using assms by (simp add: filter_empty_conv)
  with s have "Segments ?r \<noteq> []" by simp
  then have "segment_response dgResp = ?r" by (simp add: segment_response_def Let_def)
  with s show ?thesis by (cases ?r) simp
qed

lemma RunASR_response:
  assumes "url_error env deepgram_url = None"
    and "Do env w \<lparr>req_method = ''POST'', req_url = deepgram_url,
           req_header = [(''Content-Type'', ''video/mp4''), (''Authorization'', ''Token '' @ apiKey)],
           req_body = videoBytes\<rparr> = (Inr resp, w')"
  shows "RunASR env videoBytes apiKey w =
     (if StatusCode resp \<noteq> StatusOK
      then (Inl (''deepgram returned '' @ Itoa (StatusCode resp) @ '': '' @ data (Body resp)), w')
      else (case DecodeDeepgram env (Body resp) of
              Inl err \<Rightarrow> (Inl (''decode response: '' @ err), w')
            | Inr dgResp \<Rightarrow> (Inr (segment_response dgResp), w')))"
  using assms by (simp add: RunASR_def NewRequestWithContext_def Header_Set_def Let_def)

text \<open>
  Claim C2. When the provider answers with status OK and the body decodes to a response with at
  least one utterance whose trimmed transcript is not empty, \<^verbatim>\<open>RunASR\<close> returns one
  segment for each such utterance and no other, in the order of the response, with the
  utterance's start and end and the trimmed transcript as text; utterances whose trimmed
  transcript is empty are dropped, and no error is returned.
\<close>

theorem RunASR_primary_path:
  assumes "url_error env deepgram_url = None"
    and "Do env w \<lparr>req_method = ''POST'', req_url = deepgram_url,
           req_header = [(''Content-Type'', ''video/mp4''), (''Authorization'', ''Token '' @ apiKey)],
           req_body = videoBytes\<rparr> = (Inr resp, w')"
    and "StatusCode resp = StatusOK"
    and "DecodeDeepgram env (Body resp) = Inr dgResp"
    and "\<exists>u\<in>set (Utterances dgResp). TrimSpace (Transcript u) \<noteq> ''''"
  shows "RunASR env videoBytes apiKey w =
     (Inr \<lparr>Segments =
        map (\<lambda>u. \<lparr>Start = u_Start u, End = u_End u, Text = TrimSpace (Transcript u)\<rparr>)
          (filter (\<lambda>u. TrimSpace (Transcript u) \<noteq> '''') (Utterances dgResp))\<rparr>, w')"
  using RunASR_response [OF assms(1,2)] assms(3,4) segment_response_primary [OF assms(5)]
  by simp

theorem RunASR_primary_path_witness:
  "RunASR asr_test_env ''fake-video'' ''test-key'' 0 =
     (Inr \<lparr>Segments = [\<lparr>Start = 0.0, End = 2.5, Text = ''Hello world''\<rparr>,
                       \<lparr>Start = 3.0, End = 5.0, Text = ''Buy now''\<rparr>]\<rparr>, 1)"
  using RunASR_primary_path [of asr_test_env 0 "''test-key''" "''fake-video''"
      "\<lparr>StatusCode = 200, Body = \<lparr>data = ''utterances'', read_err = None\<rparr>\<rparr>" 1
      "\<lparr>Utterances =
                   [\<lparr>u_Start = 0.0, u_End = 2.5, Transcript = ''Hello world''\<rparr>,
                    \<lparr>u_Start = 3.0, u_End = 5.0, Transcript = ''  Buy now  ''\<rparr>,
                    \<lparr>u_Start = 6.0, u_End = 7.0, Transcript = ''   ''\<rparr>],
                 Channels = []\<rparr>"]
  by (simp add: asr_test_env_def StatusOK_def TrimSpace_def isSpace_def)

text \<open>
  Claim C8. When the provider answers with a status that is not OK, \<^verbatim>\<open>RunASR\<close> returns an
  error whose message holds the status code in decimal and the response body, and no result.
\<close>

theorem RunASR_non_OK_status:
  assumes "url_error env deepgram_url = None"
    and "Do env w \<lparr>req_method = ''POST'', req_url = deepgram_url,
           req_header = [(''Content-Type'', ''video/mp4''), (''Authorization'', ''Token '' @ apiKey)],
           req_body = videoBytes\<rparr> = (Inr resp, w')"
    and "StatusCode resp \<noteq> StatusOK"
  shows "RunASR env videoBytes apiKey w =
     (Inl (''deepgram returned '' @ Itoa (StatusCode resp) @ '': '' @ data (Body resp)), w')"
  using RunASR_response [OF assms(1,2)] assms(3) by simp

theorem RunASR_non_OK_status_witness:
  "RunASR asr_test_env ''video'' ''key'' 1 = (Inl ''deepgram returned 500: internal error'', 2)"
  using RunASR_non_OK_status [of asr_test_env 1 "''key''" "''video''"
      "\<lparr>StatusCode = 500, Body = \<lparr>data = ''internal error'', read_err = None\<rparr>\<rparr>" 2]
  by (simp add: asr_test_env_def StatusOK_def Itoa_def decimal.simps digit_char_def)

lemma utterance_loop_clean:
  "\<forall>s\<in>set (Segments (utterance_loop us \<lparr>Segments = []\<rparr>)). clean_text (Text s)"
  by (auto simp: utterance_loop_segments clean_TrimSpace)

lemma utterance_loop_order:
  "\<forall>u\<in>set us. u_Start u \<le> u_End u \<Longrightarrow>
   \<forall>s\<in>set (Segments (utterance_loop us \<lparr>Segments = []\<rparr>)). Start s \<le> End s"
  by (auto simp: utterance_loop_segments)

lemma groupWords_invariant:
  assumes "wellformed_words ws"
  shows "\<forall>s\<in>set (groupWordsIntoChunks ws D). segment_invariant s"
  using assms groupWords_order [of ws D] groupWords_clean [of ws D]
  by (simp add: wellformed_words_def segment_invariant_def)

text \<open>
  Claim C4, as amended. Every segment of the primary path has a text that is not empty and has
  no white space at either end. When every utterance of the response ends no earlier than it
  starts and the word entries are well formed (no word ends before it starts, starts do not
  decrease, tokens are trimmed and not empty), every segment of the response, on either path,
  satisfies \<open>end \<ge> start\<close> with a text that is not empty and is trimmed.
\<close>

theorem segment_invariant_of_wellformed_response:
  "(\<forall>s\<in>set (Segments (utterance_loop (Utterances dgResp) \<lparr>Segments = []\<rparr>)). clean_text (Text s)) \<and>
   ((\<forall>u\<in>set (Utterances dgResp). u_Start u \<le> u_End u) \<and>
    (\<forall>c\<in>set (Channels dgResp). \<forall>a\<in>set (Alternatives c). wellformed_words (Words a)) \<longrightarrow>
    (\<forall>s\<in>set (Segments (segment_response dgResp)). segment_invariant s))"
proof (intro conjI impI)
  show "\<forall>s\<in>set (Segments (utterance_loop (Utterances dgResp) \<lparr>Segments = []\<rparr>)). clean_text (Text s)"
    by (rule utterance_loop_clean)
next
  assume a: "(\<forall>u\<in>set (Utterances dgResp). u_Start u \<le> u_End u) \<and>
    (\<forall>c\<in>set (Channels dgResp). \<forall>a\<in>set (Alternatives c). wellformed_words (Words a))"
  let ?r = "utterance_loop (Utterances dgResp) \<lparr>Segments = []\<rparr>"
  have prim: "\<forall>s\<in>set (Segments ?r). segment_invariant s"
    using a utterance_loop_clean [of "Utterances dgResp"] utterance_loop_order [of "Utterances dgResp"]
    by (simp add: segment_invariant_def)
  show "\<forall>s\<in>set (Segments (segment_response dgResp)). segment_invariant s"
  proof (cases "Segments ?r = [] \<and> Channels dgResp \<noteq> [] \<and> Alternatives (hd (Channels dgResp)) \<noteq> []")
    case True
    then have "hd (Channels dgResp) \<in> set (Channels dgResp)"
      "hd (Alternatives (hd (Channels dgResp))) \<in> set (Alternatives (hd (Channels dgResp)))"
      by simp_all
    with a have "wellformed_words (Words (hd (Alternatives (hd (Channels dgResp)))))" by blast
    from groupWords_invariant [OF this, of "3.0"] True
    show ?thesis by (simp add: segment_response_def Let_def)
  next
    case False
    then have "segment_response dgResp = ?r"
      by (auto simp: segment_response_def Let_def)
    with prim show ?thesis by simp
  qed
qed

theorem segment_invariant_of_wellformed_response_witness:
  "Segments (segment_response fallback_response) =
     [\<lparr>Start = 0.0, End = 4.5, Text = ''Buy this product now''\<rparr>,
      \<lparr>Start = 5.0, End = 6.0, Text = ''and save''\<rparr>] \<and>
   segment_invariant \<lparr>Start = 0.0, End = 4.5, Text = ''Buy this product now''\<rparr> \<and>
   segment_invariant \<lparr>Start = 5.0, End = 6.0, Text = ''and save''\<rparr>"
proof -
  have hyp: "(\<forall>u\<in>set (Utterances fallback_response). u_Start u \<le> u_End u) \<and>
    (\<forall>c\<in>set (Channels fallback_response). \<forall>a\<in>set (Alternatives c). wellformed_words (Words a))"
    by (simp add: fallback_response_def wellformed_words_def clean_text_def isSpace_def)
  have segs: "Segments (segment_response fallback_response) =
     [\<lparr>Start = 0.0, End = 4.5, Text = ''Buy this product now''\<rparr>,
      \<lparr>Start = 5.0, End = 6.0, Text = ''and save''\<rparr>]"
    by (simp add: fallback_response_def segment_response_def groupWordsIntoChunks_def
        chunk_init_def chunk_body_def Let_def)
  from segment_invariant_of_wellformed_response [of fallback_response] hyp segs
  show ?thesis by simp
qed

text \<open>
  Claim C4, as stated, covers every decodable response. The times of a segment are copied from
  the provider's data and the tokens of the fallback path are joined as they come: an utterance
  that ends before it starts gives a segment with \<open>end < start\<close>, and a word that ends before
  it starts, with a token that begins with a space, gives a segment with \<open>end < start\<close> and a
  text that begins with a space.
\<close>

theorem segment_invariant_counterexample:
  "Segments (segment_response
      \<lparr>Utterances = [\<lparr>u_Start = 5.0, u_End = 1.0, Transcript = ''hi''\<rparr>], Channels = []\<rparr>) =
     [\<lparr>Start = 5.0, End = 1.0, Text = ''hi''\<rparr>] \<and>
   \<not> segment_invariant \<lparr>Start = 5.0, End = 1.0, Text = ''hi''\<rparr> \<and>
   Segments (segment_response
      \<lparr>Utterances = [], Channels = [\<lparr>Alternatives = [\<lparr>Words =
         [\<lparr>Word = '' hi'', w_Start = 2.0, w_End = 1.0\<rparr>]\<rparr>]\<rparr>]\<rparr>) =
     [\<lparr>Start = 2.0, End = 1.0, Text = '' hi''\<rparr>] \<and>
   \<not> (End \<lparr>Start = 2.0, End = 1.0, Text = '' hi''\<rparr> \<ge> Start \<lparr>Start = 2.0, End = 1.0, Text = '' hi''\<rparr>) \<and>
   \<not> clean_text (Text \<lparr>Start = 2.0, End = 1.0, Text = '' hi''\<rparr>)"
  by (simp add: segment_response_def Let_def TrimSpace_def isSpace_def segment_invariant_def
      clean_text_def groupWordsIntoChunks_def chunk_init_def chunk_body_def)


section \<open>Properties of \<^verbatim>\<open>RunVLM\<close>\<close>

subsection \<open>The invariant of the loop\<close>

lemma successes_snoc:
  "successes (rs @ [r]) = successes rs @ (case r of Inl err \<Rightarrow> [] | Inr d \<Rightarrow> [d])"
  by (simp add: successes_def)

lemma most_recent_success_Inl:
  "most_recent_success s (rs @ [Inl e]) = most_recent_success s rs"
  by (simp add: most_recent_success_def successes_snoc)

lemma most_recent_success_Inr:
  "most_recent_success s (rs @ [Inr d]) = d"
  by (simp add: most_recent_success_def successes_snoc)

lemma vlm_body_fields:
  "Frames (result (vlm_body env apiKey st kf)) = Frames (result st) @
     [\<lparr>FrameIndex = kf_FrameIndex kf, TimestampSec = kf_TimestampSec kf,
       Description =
         (case fst (callGemini env apiKey (ImageBytes kf)
                      (vlmPromptTemplate (prevDesc st) (format_f1 env (kf_TimestampSec kf))) (net st)) of
            Inl err \<Rightarrow> ''[Error: '' @ err @ '']'' | Inr d \<Rightarrow> d)\<rparr>]"
  "calls (vlm_body env apiKey st kf) = calls st @
     [\<lparr>call_net = net st,
       call_prompt = vlmPromptTemplate (prevDesc st) (format_f1 env (kf_TimestampSec kf)),
       call_result = fst (callGemini env apiKey (ImageBytes kf)
                      (vlmPromptTemplate (prevDesc st) (format_f1 env (kf_TimestampSec kf))) (net st))\<rparr>]"
  "prevDesc (vlm_body env apiKey st kf) =
     (case fst (callGemini env apiKey (ImageBytes kf)
                  (vlmPromptTemplate (prevDesc st) (format_f1 env (kf_TimestampSec kf))) (net st)) of
        Inl err \<Rightarrow> prevDesc st | Inr d \<Rightarrow> d)"
  "net (vlm_body env apiKey st kf) =
     snd (callGemini env apiKey (ImageBytes kf)
            (vlmPromptTemplate (prevDesc st) (format_f1 env (kf_TimestampSec kf))) (net st))"
  by (simp_all add: vlm_body_def Let_def split: sum.splits)

lemma vlm_body_inv:
  assumes inv: "vlm_inv env apiKey w kfs st"
  shows "vlm_inv env apiKey w (kfs @ [kf]) (vlm_body env apiKey st kf)"
proof -
  let ?s = "''This is the first frame of the ad.''"
  let ?prompt = "vlmPromptTemplate (prevDesc st) (format_f1 env (kf_TimestampSec kf))"
  let ?ret = "callGemini env apiKey (ImageBytes kf) ?prompt (net st)"
  let ?st' = "vlm_body env apiKey st kf"
  let ?n = "length kfs"
  note f = vlm_body_fields [of env apiKey st kf]
  from inv have len: "length (Frames (result st)) = ?n" "length (calls st) = ?n"
    and prev: "prevDesc st = most_recent_success ?s (map call_result (calls st))"
    and nt: "net st = (if kfs = [] then w
         else snd (callGemini env apiKey (ImageBytes (last kfs)) (call_prompt (last (calls st)))
                     (call_net (last (calls st)))))"
    and prior: "\<forall>i<?n.
         FrameIndex (Frames (result st) ! i) = kf_FrameIndex (kfs ! i) \<and>
         TimestampSec (Frames (result st) ! i) = kf_TimestampSec (kfs ! i) \<and>
         Description (Frames (result st) ! i) =
           (case call_result (calls st ! i) of
              Inl reason \<Rightarrow> ''[Error: '' @ reason @ '']'' | Inr d \<Rightarrow> d) \<and>
         call_prompt (calls st ! i) =
           vlmPromptTemplate (most_recent_success ?s (map call_result (take i (calls st))))
             (format_f1 env (kf_TimestampSec (kfs ! i))) \<and>
         call_result (calls st ! i) =
           fst (callGemini env apiKey (ImageBytes (kfs ! i)) (call_prompt (calls st ! i))
                  (call_net (calls st ! i))) \<and>
         call_net (calls st ! i) =
           (if i = 0 then w
            else snd (callGemini env apiKey (ImageBytes (kfs ! (i - 1)))
                        (call_prompt (calls st ! (i - 1))) (call_net (calls st ! (i - 1)))))"
    unfolding vlm_inv_def by blast+
  have l1: "length (Frames (result ?st')) = length (kfs @ [kf])" using len f by simp
  have l2: "length (calls ?st') = length (kfs @ [kf])" using len f by simp
  have p: "prevDesc ?st' = most_recent_success ?s (map call_result (calls ?st'))"
    using prev f by (cases "fst ?ret") (simp_all add: most_recent_success_Inl most_recent_success_Inr)
  have n: "net ?st' =
        (if kfs @ [kf] = [] then w
         else snd (callGemini env apiKey (ImageBytes (last (kfs @ [kf]))) (call_prompt (last (calls ?st')))
                     (call_net (last (calls ?st')))))"
    using f by simp
  have lastnet: "?n > 0 \<Longrightarrow> net st = snd (callGemini env apiKey (ImageBytes (kfs ! (?n - 1)))
       (call_prompt (calls st ! (?n - 1))) (call_net (calls st ! (?n - 1))))"
  proof -
    assume pos: "?n > 0"
    then have "kfs \<noteq> []" "calls st \<noteq> []" using len by auto
    then have "last kfs = kfs ! (?n - 1)" "last (calls st) = calls st ! (?n - 1)"
      using len by (simp_all add: last_conv_nth)
    with nt \<open>kfs \<noteq> []\<close> show ?thesis by simp
  qed
  have all: "\<forall>i<length (kfs @ [kf]).
         FrameIndex (Frames (result ?st') ! i) = kf_FrameIndex ((kfs @ [kf]) ! i) \<and>
         TimestampSec (Frames (result ?st') ! i) = kf_TimestampSec ((kfs @ [kf]) ! i) \<and>
         Description (Frames (result ?st') ! i) =
           (case call_result (calls ?st' ! i) of
              Inl reason \<Rightarrow> ''[Error: '' @ reason @ '']'' | Inr d \<Rightarrow> d) \<and>
         call_prompt (calls ?st' ! i) =
           vlmPromptTemplate (most_recent_success ?s (map call_result (take i (calls ?st'))))
             (format_f1 env (kf_TimestampSec ((kfs @ [kf]) ! i))) \<and>
         call_result (calls ?st' ! i) =
           fst (callGemini env apiKey (ImageBytes ((kfs @ [kf]) ! i)) (call_prompt (calls ?st' ! i))
                  (call_net (calls ?st' ! i))) \<and>
         call_net (calls ?st' ! i) =
           (if i = 0 then w
            else snd (callGemini env apiKey (ImageBytes ((kfs @ [kf]) ! (i - 1)))
                        (call_prompt (calls ?st' ! (i - 1))) (call_net (calls ?st' ! (i - 1)))))"
  proof (intro allI impI)
    fix i assume "i < length (kfs @ [kf])"
    then consider (before) "i < ?n" | (new) "i = ?n" by fastforce
    then show "FrameIndex (Frames (result ?st') ! i) = kf_FrameIndex ((kfs @ [kf]) ! i) \<and>
         TimestampSec (Frames (result ?st') ! i) = kf_TimestampSec ((kfs @ [kf]) ! i) \<and>
         Description (Frames (result ?st') ! i) =
           (case call_result (calls ?st' ! i) of
              Inl reason \<Rightarrow> ''[Error: '' @ reason @ '']'' | Inr d \<Rightarrow> d) \<and>
         call_prompt (calls ?st' ! i) =
           vlmPromptTemplate (most_recent_success ?s (map call_result (take i (calls ?st'))))
             (format_f1 env (kf_TimestampSec ((kfs @ [kf]) ! i))) \<and>
         call_result (calls ?st' ! i) =
           fst (callGemini env apiKey (ImageBytes ((kfs @ [kf]) ! i)) (call_prompt (calls ?st' ! i))
                  (call_net (calls ?st' ! i))) \<and>
         call_net (calls ?st' ! i) =
           (if i = 0 then w
            else snd (callGemini env apiKey (ImageBytes ((kfs @ [kf]) ! (i - 1)))
                        (call_prompt (calls ?st' ! (i - 1))) (call_net (calls ?st' ! (i - 1)))))"
    proof cases
      case before
      then have "i - 1 < ?n" by simp
      with before show ?thesis
        using prior [rule_format, OF before] len f
        by (simp add: nth_append)
    next
      case new
      show ?thesis
      proof (cases "?n = 0")
        case True
        with new show ?thesis using len f prev nt by (simp add: nth_append)
      next
        case False
        then have "?n - 1 < ?n" by simp
        with new False show ?thesis using len f prev lastnet
          by (simp add: nth_append)
      qed
    qed
  qed
  show ?thesis unfolding vlm_inv_def using l1 l2 p n all by blast
qed

lemma vlm_loop_inv:
  "vlm_inv env apiKey w kfs0 st \<Longrightarrow> vlm_inv env apiKey w (kfs0 @ kfs) (vlm_loop env apiKey kfs st)"
proof (induction kfs arbitrary: kfs0 st)
  case Nil
  then show ?case by simp
next
  case (Cons kf kfs)
  from Cons.IH [OF vlm_body_inv [OF Cons.prems, of kf]] show ?case by simp
qed

lemma vlm_init_inv: "vlm_inv env apiKey w [] (vlm_init w)"
  by (simp add: vlm_inv_def vlm_init_def most_recent_success_def successes_def)

lemma vlm_run_inv: "vlm_inv env apiKey w kfs (vlm_loop env apiKey kfs (vlm_init w))"
  using vlm_loop_inv [OF vlm_init_inv, of env apiKey w kfs] by simp

subsection \<open>Failures of a call\<close>

lemma callGemini_detected_failure:
  assumes "Marshal env (gemini_reqBody env img prompt) = Inr bodyBytes"
    and "url_error env (gemini_url apiKey) = None"
    and "Do env v \<lparr>req_method = ''POST'', req_url = gemini_url apiKey,
           req_header = [(''Content-Type'', ''application/json'')], req_body = bodyBytes\<rparr> = (reply, v')"
    and "detected_failure env reply"
  shows "\<exists>reason. callGemini env apiKey img prompt v = (Inl reason, v')"
  using assms
  by (auto simp: callGemini_def detected_failure_def NewRequestWithContext_def Header_Set_def Let_def
      split: sum.splits option.splits)

lemma RunVLM_result:
  "RunVLM env kfs apiKey w =
     (Inr (result (vlm_loop env apiKey kfs (vlm_init w))), net (vlm_loop env apiKey kfs (vlm_init w)))"
  by (simp add: RunVLM_def Let_def)

text \<open>A response with status OK, no error and a first candidate with a part is a success: the
  call returns the trimmed text of that part, whatever it is.\<close>

lemma callGemini_generated_text:
  assumes "Marshal env (gemini_reqBody env img prompt) = Inr bodyBytes"
    and "url_error env (gemini_url apiKey) = None"
    and "Do env v \<lparr>req_method = ''POST'', req_url = gemini_url apiKey,
           req_header = [(''Content-Type'', ''application/json'')], req_body = bodyBytes\<rparr> =
         (Inr \<lparr>StatusCode = StatusOK, Body = \<lparr>data = respBody, read_err = None\<rparr>\<rparr>, v')"
    and "Unmarshal env respBody = Inr \<lparr>Candidates = (t # ts) # cands, Error = None\<rparr>"
  shows "callGemini env apiKey img prompt v = (Inr (TrimSpace t), v')"
  using assms
  by (simp add: callGemini_def NewRequestWithContext_def Header_Set_def Let_def)

lemma vlmPromptTemplate_inj:
  "vlmPromptTemplate a t = vlmPromptTemplate b t \<Longrightarrow> a = b"
  by (simp add: vlmPromptTemplate_def)

subsection \<open>The run of \<^verbatim>\<open>TestRunVLM_ErrorContinues\<close>\<close>

lemma test_call_1:
  "callGemini vlm_test_env ''key'' img prompt 0 = (Inl ''gemini returned 500: server error'', 1)"
  by (simp add: callGemini_def vlm_test_env_def NewRequestWithContext_def Let_def StatusOK_def
      Itoa_def decimal.simps digit_char_def)

lemma test_call_2:
  "callGemini vlm_test_env ''key'' img prompt (Suc n) = (Inr ''Second frame OK'', Suc (Suc n))"
  by (simp add: callGemini_def vlm_test_env_def NewRequestWithContext_def Let_def StatusOK_def
      TrimSpace_def isSpace_def)

lemma test_run:
  "vlm_loop vlm_test_env ''key'' test_keyframes (vlm_init 0) =
     \<lparr>result = \<lparr>Frames =
        [\<lparr>FrameIndex = 0, TimestampSec = 0.0,
          Description = ''[Error: gemini returned 500: server error]''\<rparr>,
         \<lparr>FrameIndex = 3, TimestampSec = 1.5, Description = ''Second frame OK''\<rparr>]\<rparr>,
      prevDesc = ''Second frame OK'', net = 2,
      calls =
        [\<lparr>call_net = 0,
          call_prompt = vlmPromptTemplate ''This is the first frame of the ad.'' ''0.0'',
          call_result = Inl ''gemini returned 500: server error''\<rparr>,
         \<lparr>call_net = 1,
          call_prompt = vlmPromptTemplate ''This is the first frame of the ad.'' ''1.5'',
          call_result = Inr ''Second frame OK''\<rparr>]\<rparr>"
proof -
  have f: "format_f1 vlm_test_env 0 = ''0.0''" "format_f1 vlm_test_env (3 / 2) = ''1.5''"
    by (simp_all add: vlm_test_env_def)
  show ?thesis
    by (simp add: test_keyframes_def vlm_init_def vlm_body_def Let_def f test_call_1 test_call_2)
qed

subsection \<open>A run with an empty generated text\<close>

lemma empty_call_1:
  "callGemini empty_text_env ''key'' img prompt 0 = (Inr '''', 1)"
  by (simp add: callGemini_def empty_text_env_def NewRequestWithContext_def Let_def StatusOK_def
      TrimSpace_def)

lemma empty_call_2:
  "callGemini empty_text_env ''key'' img prompt (Suc n) = (Inr ''Second frame OK'', Suc (Suc n))"
  by (simp add: callGemini_def empty_text_env_def NewRequestWithContext_def Let_def StatusOK_def
      TrimSpace_def isSpace_def)

lemma empty_run:
  "vlm_loop empty_text_env ''key'' test_keyframes (vlm_init 0) =
     \<lparr>result = \<lparr>Frames =
        [\<lparr>FrameIndex = 0, TimestampSec = 0.0, Description = ''''\<rparr>,
         \<lparr>FrameIndex = 3, TimestampSec = 1.5, Description = ''Second frame OK''\<rparr>]\<rparr>,
      prevDesc = ''Second frame OK'', net = 2,
      calls =
        [\<lparr>call_net = 0,
          call_prompt = vlmPromptTemplate ''This is the first frame of the ad.'' ''0.0'',
          call_result = Inr ''''\<rparr>,
         \<lparr>call_net = 1,
          call_prompt = vlmPromptTemplate '''' ''1.5'',
          call_result = Inr ''Second frame OK''\<rparr>]\<rparr>"
proof -
  have f: "format_f1 empty_text_env 0 = ''0.0''" "format_f1 empty_text_env (3 / 2) = ''1.5''"
    by (simp_all add: empty_text_env_def)
  show ?thesis
    by (simp add: test_keyframes_def vlm_init_def vlm_body_def Let_def f empty_call_1 empty_call_2)
qed

text \<open>
  Claim C1, as amended. For every keyframe sequence, \<^verbatim>\<open>RunVLM\<close> returns its result and no
  error, with a frame for every keyframe. The history of the run records, for the call of each
  keyframe, the network state it started from (the state the previous call left), the prompt and
  the result of \<^verbatim>\<open>callGemini\<close>. When the call of a frame fails with a reason, the description
  of that frame is the reason inside the marker \<^verbatim>\<open>[Error: ...]\<close>, and the loop goes on. The
  prompt of every frame is the template filled with the most recent successful description among
  the earlier calls, or with the sentinel "This is the first frame of the ad." when none has
  succeeded: it is never the text of a failed frame. A call fails, with some reason, whenever the
  HTTP client reports a transport error, the status is not OK, the body does not decode, or the
  decoded response has no candidate or a first candidate without parts. A response with status
  OK whose first candidate has a part and which carries no error is a success, also when the
  text of that part is empty or blank: the call returns the trimmed text, which then is the
  description of the frame, without a marker, and the context of the next prompt.
\<close>

theorem RunVLM_frame_failure_isolation:
  "(let st = vlm_loop env apiKey kfs (vlm_init w) in
      RunVLM env kfs apiKey w = (Inr (result st), net st) \<and>
      length (Frames (result st)) = length kfs \<and> length (calls st) = length kfs \<and>
      (\<forall>i<length kfs.
         call_net (calls st ! i) =
           (if i = 0 then w
            else snd (callGemini env apiKey (ImageBytes (kfs ! (i - 1)))
                        (call_prompt (calls st ! (i - 1))) (call_net (calls st ! (i - 1))))) \<and>
         call_prompt (calls st ! i) =
           vlmPromptTemplate
             (most_recent_success ''This is the first frame of the ad.''
                (map call_result (take i (calls st))))
             (format_f1 env (kf_TimestampSec (kfs ! i))) \<and>
         call_result (calls st ! i) =
           fst (callGemini env apiKey (ImageBytes (kfs ! i)) (call_prompt (calls st ! i))
                  (call_net (calls st ! i))) \<and>
         (\<forall>reason. call_result (calls st ! i) = Inl reason \<longrightarrow>
            Description (Frames (result st) ! i) = ''[Error: '' @ reason @ '']'') \<and>
         (\<forall>d. call_result (calls st ! i) = Inr d \<longrightarrow>
            Description (Frames (result st) ! i) = d))) \<and>
   (Marshal env (gemini_reqBody env img prompt) = Inr bodyBytes \<and>
    url_error env (gemini_url apiKey) = None \<and>
    Do env v \<lparr>req_method = ''POST'', req_url = gemini_url apiKey,
      req_header = [(''Content-Type'', ''application/json'')], req_body = bodyBytes\<rparr> = (reply, v') \<and>
    detected_failure env reply \<longrightarrow>
    (\<exists>reason. callGemini env apiKey img prompt v = (Inl reason, v'))) \<and>
   (Marshal env (gemini_reqBody env img prompt) = Inr bodyBytes \<and>
    url_error env (gemini_url apiKey) = None \<and>
    Do env v \<lparr>req_method = ''POST'', req_url = gemini_url apiKey,
      req_header = [(''Content-Type'', ''application/json'')], req_body = bodyBytes\<rparr> =
      (Inr \<lparr>StatusCode = StatusOK, Body = \<lparr>data = respBody, read_err = None\<rparr>\<rparr>, v') \<and>
    Unmarshal env respBody = Inr \<lparr>Candidates = (t # ts) # cands, Error = None\<rparr> \<longrightarrow>
    callGemini env apiKey img prompt v = (Inr (TrimSpace t), v'))"
proof -
  let ?st = "vlm_loop env apiKey kfs (vlm_init w)"
  have inv: "vlm_inv env apiKey w kfs ?st" by (rule vlm_run_inv)
  then have len: "length (Frames (result ?st)) = length kfs" "length (calls ?st) = length kfs"
    unfolding vlm_inv_def by blast+
  have frames: "\<forall>i<length kfs.
         call_net (calls ?st ! i) =
           (if i = 0 then w
            else snd (callGemini env apiKey (ImageBytes (kfs ! (i - 1)))
                        (call_prompt (calls ?st ! (i - 1))) (call_net (calls ?st ! (i - 1))))) \<and>
         call_prompt (calls ?st ! i) =
           vlmPromptTemplate
             (most_recent_success ''This is the first frame of the ad.''
                (map call_result (take i (calls ?st))))
             (format_f1 env (kf_TimestampSec (kfs ! i))) \<and>
         call_result (calls ?st ! i) =
           fst (callGemini env apiKey (ImageBytes (kfs ! i)) (call_prompt (calls ?st ! i))
                  (call_net (calls ?st ! i))) \<and>
         (\<forall>reason. call_result (calls ?st ! i) = Inl reason \<longrightarrow>
            Description (Frames (result ?st) ! i) = ''[Error: '' @ reason @ '']'') \<and>
         (\<forall>d. call_result (calls ?st ! i) = Inr d \<longrightarrow>
            Description (Frames (result ?st) ! i) = d)"
  proof (intro allI impI)
    fix i assume i: "i < length kfs"
    from inv i have
      "Description (Frames (result ?st) ! i) =
           (case call_result (calls ?st ! i) of
              Inl reason \<Rightarrow> ''[Error: '' @ reason @ '']'' | Inr d \<Rightarrow> d)"
      "call_prompt (calls ?st ! i) =
           vlmPromptTemplate
             (most_recent_success ''This is the first frame of the ad.''
                (map call_result (take i (calls ?st))))
             (format_f1 env (kf_TimestampSec (kfs ! i)))"
      "call_result (calls ?st ! i) =
           fst (callGemini env apiKey (ImageBytes (kfs ! i)) (call_prompt (calls ?st ! i))
                  (call_net (calls ?st ! i)))"
      "call_net (calls ?st ! i) =
           (if i = 0 then w
            else snd (callGemini env apiKey (ImageBytes (kfs ! (i - 1)))
                        (call_prompt (calls ?st ! (i - 1))) (call_net (calls ?st ! (i - 1)))))"
      unfolding vlm_inv_def by blast+
    then show "call_net (calls ?st ! i) =
           (if i = 0 then w
            else snd (callGemini env apiKey (ImageBytes (kfs ! (i - 1)))
                        (call_prompt (calls ?st ! (i - 1))) (call_net (calls ?st ! (i - 1))))) \<and>
         call_prompt (calls ?st ! i) =
           vlmPromptTemplate
             (most_recent_success ''This is the first frame of the ad.''
                (map call_result (take i (calls ?st))))
             (format_f1 env (kf_TimestampSec (kfs ! i))) \<and>
         call_result (calls ?st ! i) =
           fst (callGemini env apiKey (ImageBytes (kfs ! i)) (call_prompt (calls ?st ! i))
                  (call_net (calls ?st ! i))) \<and>
         (\<forall>reason. call_result (calls ?st ! i) = Inl reason \<longrightarrow>
            Description (Frames (result ?st) ! i) = ''[Error: '' @ reason @ '']'') \<and>
         (\<forall>d. call_result (calls ?st ! i) = Inr d \<longrightarrow>
            Description (Frames (result ?st) ! i) = d)"
      by simp
  qed
  show ?thesis
    unfolding Let_def
    using RunVLM_result [of env kfs apiKey w] len frames
      callGemini_detected_failure [of env img prompt bodyBytes apiKey v reply v']
      callGemini_generated_text [of env img prompt bodyBytes apiKey v respBody v' t ts cands]
    by blast
qed

theorem RunVLM_frame_failure_isolation_witness:
  "RunVLM vlm_test_env test_keyframes ''key'' 0 =
     (Inr \<lparr>Frames =
        [\<lparr>FrameIndex = 0, TimestampSec = 0.0,
          Description = ''[Error: gemini returned 500: server error]''\<rparr>,
         \<lparr>FrameIndex = 3, TimestampSec = 1.5, Description = ''Second frame OK''\<rparr>]\<rparr>, 2) \<and>
   map call_result (calls (vlm_loop vlm_test_env ''key'' test_keyframes (vlm_init 0))) =
     [Inl ''gemini returned 500: server error'', Inr ''Second frame OK''] \<and>
   map call_prompt (calls (vlm_loop vlm_test_env ''key'' test_keyframes (vlm_init 0))) =
     [vlmPromptTemplate ''This is the first frame of the ad.'' ''0.0'',
      vlmPromptTemplate ''This is the first frame of the ad.'' ''1.5''] \<and>
   detected_failure vlm_test_env
     (Inr \<lparr>StatusCode = 500, Body = \<lparr>data = ''server error'', read_err = None\<rparr>\<rparr>) \<and>
   (\<exists>reason. callGemini vlm_test_env ''key'' ''img1''
      (vlmPromptTemplate ''This is the first frame of the ad.'' ''0.0'') 0 = (Inl reason, 1)) \<and>
   callGemini vlm_test_env ''key'' ''img2''
      (vlmPromptTemplate ''This is the first frame of the ad.'' ''1.5'') 1 =
     (Inr ''Second frame OK'', 2) \<and>
   callGemini empty_text_env ''key'' ''img1''
      (vlmPromptTemplate ''This is the first frame of the ad.'' ''0.0'') 0 = (Inr '''', 1)"
proof -
  have pf: "detected_failure vlm_test_env
     (Inr \<lparr>StatusCode = 500, Body = \<lparr>data = ''server error'', read_err = None\<rparr>\<rparr>)"
    by (simp add: detected_failure_def StatusOK_def)
  have hyp: "Marshal vlm_test_env (gemini_reqBody vlm_test_env ''img1''
        (vlmPromptTemplate ''This is the first frame of the ad.'' ''0.0'')) = Inr ''{}'' \<and>
    url_error vlm_test_env (gemini_url ''key'') = None \<and>
    Do vlm_test_env 0 \<lparr>req_method = ''POST'', req_url = gemini_url ''key'',
      req_header = [(''Content-Type'', ''application/json'')], req_body = ''{}''\<rparr> =
      (Inr \<lparr>StatusCode = 500, Body = \<lparr>data = ''server error'', read_err = None\<rparr>\<rparr>, 1)"
    by (simp add: vlm_test_env_def)
  have ok: "Marshal vlm_test_env (gemini_reqBody vlm_test_env ''img2''
        (vlmPromptTemplate ''This is the first frame of the ad.'' ''1.5'')) = Inr ''{}'' \<and>
    url_error vlm_test_env (gemini_url ''key'') = None \<and>
    Do vlm_test_env 1 \<lparr>req_method = ''POST'', req_url = gemini_url ''key'',
      req_header = [(''Content-Type'', ''application/json'')], req_body = ''{}''\<rparr> =
      (Inr \<lparr>StatusCode = StatusOK, Body = \<lparr>data = ''candidates'', read_err = None\<rparr>\<rparr>, 2) \<and>
    Unmarshal vlm_test_env ''candidates'' =
      Inr \<lparr>Candidates = [[''Second frame OK'']], Error = None\<rparr>"
    by (simp add: vlm_test_env_def StatusOK_def)
  have empty: "Marshal empty_text_env (gemini_reqBody empty_text_env ''img1''
        (vlmPromptTemplate ''This is the first frame of the ad.'' ''0.0'')) = Inr ''{}'' \<and>
    url_error empty_text_env (gemini_url ''key'') = None \<and>
    Do empty_text_env 0 \<lparr>req_method = ''POST'', req_url = gemini_url ''key'',
      req_header = [(''Content-Type'', ''application/json'')], req_body = ''{}''\<rparr> =
      (Inr \<lparr>StatusCode = StatusOK, Body = \<lparr>data = ''empty text'', read_err = None\<rparr>\<rparr>, 1) \<and>
    Unmarshal empty_text_env ''empty text'' = Inr \<lparr>Candidates = [['''']], Error = None\<rparr>"
    by (simp add: empty_text_env_def StatusOK_def)
  have trim: "TrimSpace ''Second frame OK'' = ''Second frame OK''" "TrimSpace '''' = ''''"
    by (simp_all add: TrimSpace_def isSpace_def)
  from RunVLM_frame_failure_isolation [where env = vlm_test_env and apiKey = "''key''"
      and kfs = test_keyframes and w = 0 and img = "''img1''"
      and prompt = "vlmPromptTemplate ''This is the first frame of the ad.'' ''0.0''"
      and bodyBytes = "''{}''" and v = 0 and v' = 1
      and reply = "Inr \<lparr>StatusCode = 500, Body = \<lparr>data = ''server error'', read_err = None\<rparr>\<rparr>"]
    RunVLM_frame_failure_isolation [where env = vlm_test_env and apiKey = "''key''"
      and kfs = test_keyframes and w = 0 and img = "''img2''"
      and prompt = "vlmPromptTemplate ''This is the first frame of the ad.'' ''1.5''"
      and bodyBytes = "''{}''" and v = 1 and v' = 2 and respBody = "''candidates''"
      and t = "''Second frame OK''" and ts = "[]" and cands = "[]"]
    RunVLM_frame_failure_isolation [where env = empty_text_env and apiKey = "''key''"
      and kfs = "[]" and w = 0 and img = "''img1''"
      and prompt = "vlmPromptTemplate ''This is the first frame of the ad.'' ''0.0''"
      and bodyBytes = "''{}''" and v = 0 and v' = 1 and respBody = "''empty text''"
      and t = "''''" and ts = "[]" and cands = "[]"]
    pf hyp ok empty trim test_run
  show ?thesis by (simp add: Let_def)
qed

text \<open>
  Claim C1, as stated, counts empty generated content among the failures of a call. When the
  provider answers the first of two keyframes with status OK and a candidate whose only part
  has the empty text, which is a failure in the specification's words, \<^verbatim>\<open>callGemini\<close> returns
  the empty description and no error: the first frame has the description "" with no error
  marker, and the prompt of the second frame is built from "" and not from the sentinel.
\<close>

theorem RunVLM_empty_generated_text_counterexample:
  "Do empty_text_env 0 \<lparr>req_method = ''POST'', req_url = gemini_url ''key'',
      req_header = [(''Content-Type'', ''application/json'')], req_body = ''{}''\<rparr> =
     (Inr \<lparr>StatusCode = 200, Body = \<lparr>data = ''empty text'', read_err = None\<rparr>\<rparr>, 1) \<and>
   Unmarshal empty_text_env ''empty text'' = Inr \<lparr>Candidates = [['''']], Error = None\<rparr> \<and>
   spec_provider_failure empty_text_env
     (Inr \<lparr>StatusCode = 200, Body = \<lparr>data = ''empty text'', read_err = None\<rparr>\<rparr>) \<and>
   RunVLM empty_text_env test_keyframes ''key'' 0 =
     (Inr \<lparr>Frames =
        [\<lparr>FrameIndex = 0, TimestampSec = 0.0, Description = ''''\<rparr>,
         \<lparr>FrameIndex = 3, TimestampSec = 1.5, Description = ''Second frame OK''\<rparr>]\<rparr>, 2) \<and>
   map call_prompt (calls (vlm_loop empty_text_env ''key'' test_keyframes (vlm_init 0))) =
     [vlmPromptTemplate ''This is the first frame of the ad.'' ''0.0'',
      vlmPromptTemplate '''' ''1.5''] \<and>
   vlmPromptTemplate '''' ''1.5'' \<noteq> vlmPromptTemplate ''This is the first frame of the ad.'' ''1.5''"
proof -
  have d: "Do empty_text_env 0 \<lparr>req_method = ''POST'', req_url = gemini_url ''key'',
      req_header = [(''Content-Type'', ''application/json'')], req_body = ''{}''\<rparr> =
     (Inr \<lparr>StatusCode = 200, Body = \<lparr>data = ''empty text'', read_err = None\<rparr>\<rparr>, 1)"
    by (simp add: empty_text_env_def)
  have u: "Unmarshal empty_text_env ''empty text'' = Inr \<lparr>Candidates = [['''']], Error = None\<rparr>"
    by (simp add: empty_text_env_def)
  have sp: "spec_provider_failure empty_text_env
     (Inr \<lparr>StatusCode = 200, Body = \<lparr>data = ''empty text'', read_err = None\<rparr>\<rparr>)"
    by (simp add: spec_provider_failure_def empty_generated_content_def u)
  have r: "RunVLM empty_text_env test_keyframes ''key'' 0 =
     (Inr \<lparr>Frames =
        [\<lparr>FrameIndex = 0, TimestampSec = 0.0, Description = ''''\<rparr>,
         \<lparr>FrameIndex = 3, TimestampSec = 1.5, Description = ''Second frame OK''\<rparr>]\<rparr>, 2)"
    by (simp add: RunVLM_def Let_def empty_run)
  have p: "map call_prompt (calls (vlm_loop empty_text_env ''key'' test_keyframes (vlm_init 0))) =
     [vlmPromptTemplate ''This is the first frame of the ad.'' ''0.0'',
      vlmPromptTemplate '''' ''1.5'']"
    by (simp add: empty_run)
  have n: "vlmPromptTemplate '''' ''1.5'' \<noteq>
      vlmPromptTemplate ''This is the first frame of the ad.'' ''1.5''"
    using vlmPromptTemplate_inj [of "''''" "''1.5''" "''This is the first frame of the ad.''"]
    by auto
  from d u sp r p n show ?thesis by blast
qed

text \<open>
  Claim C6. \<^verbatim>\<open>RunVLM\<close> returns a result and no error for every environment, keyframe
  sequence and credential, whatever the calls of the frames do; on the empty keyframe sequence
  the result has no frames and the network is untouched.
\<close>

theorem RunVLM_never_fails:
  "(\<exists>r w'. RunVLM env kfs apiKey w = (Inr r, w')) \<and>
   RunVLM env [] apiKey w = (Inr \<lparr>Frames = []\<rparr>, w)"
  by (simp add: RunVLM_def Let_def vlm_init_def)

theorem RunVLM_never_fails_witness:
  "RunVLM vlm_test_env [\<lparr>kf_FrameIndex = 0, kf_TimestampSec = 0.0, ImageBytes = ''img1''\<rparr>] ''key'' 0 =
     (Inr \<lparr>Frames = [\<lparr>FrameIndex = 0, TimestampSec = 0.0,
        Description = ''[Error: gemini returned 500: server error]''\<rparr>]\<rparr>, 1) \<and>
   RunVLM vlm_test_env [] ''key'' 0 = (Inr \<lparr>Frames = []\<rparr>, 0)"
  using RunVLM_never_fails [of vlm_test_env
      "[\<lparr>kf_FrameIndex = 0, kf_TimestampSec = 0.0, ImageBytes = ''img1''\<rparr>]" "''key''" 0]
  by (simp add: RunVLM_def vlm_init_def vlm_body_def Let_def test_call_1)

text \<open>
  Claim C7. \<^verbatim>\<open>RunVLM\<close> returns exactly one frame for each input keyframe, in the order of the
  input, the frame index and the timestamp of each frame being those of its keyframe.
\<close>

theorem RunVLM_one_frame_per_keyframe:
  "\<exists>r w'. RunVLM env kfs apiKey w = (Inr r, w') \<and>
     length (Frames r) = length kfs \<and>
     map FrameIndex (Frames r) = map kf_FrameIndex kfs \<and>
     map TimestampSec (Frames r) = map kf_TimestampSec kfs"
proof -
  let ?st = "vlm_loop env apiKey kfs (vlm_init w)"
  have inv: "vlm_inv env apiKey w kfs ?st" by (rule vlm_run_inv)
  then have len: "length (Frames (result ?st)) = length kfs"
    and each: "\<And>i. i < length kfs \<Longrightarrow>
         FrameIndex (Frames (result ?st) ! i) = kf_FrameIndex (kfs ! i) \<and>
         TimestampSec (Frames (result ?st) ! i) = kf_TimestampSec (kfs ! i)"
    unfolding vlm_inv_def by blast+
  have "map FrameIndex (Frames (result ?st)) = map kf_FrameIndex kfs"
    using len each by (intro nth_equalityI) simp_all
  moreover have "map TimestampSec (Frames (result ?st)) = map kf_TimestampSec kfs"
    using len each by (intro nth_equalityI) simp_all
  ultimately show ?thesis using len RunVLM_result [of env kfs apiKey w] by blast
qed

theorem RunVLM_one_frame_per_keyframe_witness:
  "length (Frames (result (vlm_loop vlm_test_env ''key'' test_keyframes (vlm_init 0)))) = 2 \<and>
   map FrameIndex (Frames (result (vlm_loop vlm_test_env ''key'' test_keyframes (vlm_init 0)))) = [0, 3] \<and>
   map TimestampSec (Frames (result (vlm_loop vlm_test_env ''key'' test_keyframes (vlm_init 0)))) = [0.0, 1.5]"
  using RunVLM_one_frame_per_keyframe [of vlm_test_env test_keyframes "''key''" 0] test_run
  by simp


section \<open>Properties of the request handler\<close>

lemma gather_keyframes_failed:
  assumes "DownloadKeyframeMetadata (r2 h) adID s0 = (Inl err1, s1) \<or>
           (\<exists>metas s'. DownloadKeyframeMetadata (r2 h) adID s0 = (Inr metas, s') \<and>
              DownloadKeyframeImages (r2 h) adID metas s' = (Inl err2, s1))"
  shows "gather_keyframes h adID s0 = ([], s1)"
  using assms
proof
  assume "DownloadKeyframeMetadata (r2 h) adID s0 = (Inl err1, s1)"
  then show ?thesis by (simp add: gather_keyframes_def)
next
  assume "\<exists>metas s'. DownloadKeyframeMetadata (r2 h) adID s0 = (Inr metas, s') \<and>
              DownloadKeyframeImages (r2 h) adID metas s' = (Inl err2, s1)"
  then obtain metas s' where m: "DownloadKeyframeMetadata (r2 h) adID s0 = (Inr metas, s')"
    and i: "DownloadKeyframeImages (r2 h) adID metas s' = (Inl err2, s1)" by blast
  from i have "metas \<noteq> []" by (auto simp: DownloadKeyframeImages_def)
  with m i show ?thesis by (simp add: gather_keyframes_def)
qed

lemma vlm_gate_no_keyframes:
  "vlm_gate h adID [] =
     VLM_skipped \<lparr>Stream = ''vlm'', Status = ''skipped'', ResultCount = 0, sr_R2Key = '''',
                   sr_Error = ''no keyframe images available''\<rparr>"
  by (simp add: vlm_gate_def)

text \<open>
  Claim C9. For a POST request whose body decodes to an ad identifier that is not empty: when
  the download of the video fails, the handler answers with \<^verbatim>\<open>http.Error\<close>, status 500, and
  returns, so no stream is started; when the video is there, the transcript stream is started
  with the video bytes, or skipped for want of its credential, whatever the downloads of the
  keyframes do; and when the download of the keyframe metadata or of the keyframe images fails,
  the request goes on with the visual stream skipped for "no keyframe images available".
\<close>

theorem ServeHTTP_video_required_keyframes_optional:
  assumes "Method req = ''POST''"
    and "DecodeRequest h (request_Body req) = Inr body"
    and "AdID body \<noteq> ''''"
  shows "(DownloadVideo (r2 h) (AdID body) s = (Inl err, sv) \<longrightarrow>
            ServeHTTP h req s =
              (http_Error (''download video: '' @ err) StatusInternalServerError, sv)) \<and>
         (DownloadVideo (r2 h) (AdID body) s = (Inr videoBytes, sv) \<longrightarrow>
            (\<exists>vlm s'. ServeHTTP h req s =
               (Streams (if DeepgramAPIKey (cfg h) \<noteq> ''''
                         then ASR_started (AdID body) videoBytes
                         else ASR_skipped \<lparr>Stream = ''asr'', Status = ''skipped'', ResultCount = 0,
                                sr_R2Key = '''', sr_Error = ''DEEPGRAM_API_KEY not configured''\<rparr>)
                  vlm, s'))) \<and>
         (DownloadVideo (r2 h) (AdID body) s = (Inr videoBytes, sv) \<and>
          (DownloadKeyframeMetadata (r2 h) (AdID body) sv = (Inl errm, sk) \<or>
           (\<exists>metas s'. DownloadKeyframeMetadata (r2 h) (AdID body) sv = (Inr metas, s') \<and>
              DownloadKeyframeImages (r2 h) (AdID body) metas s' = (Inl erri, sk))) \<longrightarrow>
            ServeHTTP h req s =
              (Streams (if DeepgramAPIKey (cfg h) \<noteq> ''''
                        then ASR_started (AdID body) videoBytes
                        else ASR_skipped \<lparr>Stream = ''asr'', Status = ''skipped'', ResultCount = 0,
                               sr_R2Key = '''', sr_Error = ''DEEPGRAM_API_KEY not configured''\<rparr>)
                 (VLM_skipped \<lparr>Stream = ''vlm'', Status = ''skipped'', ResultCount = 0,
                    sr_R2Key = '''', sr_Error = ''no keyframe images available''\<rparr>), sk))"
proof (intro conjI impI)
  assume "DownloadVideo (r2 h) (AdID body) s = (Inl err, sv)"
  with assms show "ServeHTTP h req s =
      (http_Error (''download video: '' @ err) StatusInternalServerError, sv)"
    by (simp add: ServeHTTP_def)
next
  assume v: "DownloadVideo (r2 h) (AdID body) s = (Inr videoBytes, sv)"
  obtain kis s2 where g: "gather_keyframes h (AdID body) sv = (kis, s2)"
    by (cases "gather_keyframes h (AdID body) sv")
  with assms v have "ServeHTTP h req s =
      (Streams (asr_gate h (AdID body) videoBytes) (vlm_gate h (AdID body) kis), s2)"
    by (simp add: ServeHTTP_def)
  then show "\<exists>vlm s'. ServeHTTP h req s =
       (Streams (if DeepgramAPIKey (cfg h) \<noteq> ''''
                 then ASR_started (AdID body) videoBytes
                 else ASR_skipped \<lparr>Stream = ''asr'', Status = ''skipped'', ResultCount = 0,
                        sr_R2Key = '''', sr_Error = ''DEEPGRAM_API_KEY not configured''\<rparr>)
          vlm, s')"
    by (simp add: asr_gate_def)
next
  assume a: "DownloadVideo (r2 h) (AdID body) s = (Inr videoBytes, sv) \<and>
          (DownloadKeyframeMetadata (r2 h) (AdID body) sv = (Inl errm, sk) \<or>
           (\<exists>metas s'. DownloadKeyframeMetadata (r2 h) (AdID body) sv = (Inr metas, s') \<and>
              DownloadKeyframeImages (r2 h) (AdID body) metas s' = (Inl erri, sk)))"
  then have g: "gather_keyframes h (AdID body) sv = ([], sk)"
    using gather_keyframes_failed [of h "AdID body" sv errm sk erri] by blast
  with assms a show "ServeHTTP h req s =
      (Streams (if DeepgramAPIKey (cfg h) \<noteq> ''''
                then ASR_started (AdID body) videoBytes
                else ASR_skipped \<lparr>Stream = ''asr'', Status = ''skipped'', ResultCount = 0,
                       sr_R2Key = '''', sr_Error = ''DEEPGRAM_API_KEY not configured''\<rparr>)
         (VLM_skipped \<lparr>Stream = ''vlm'', Status = ''skipped'', ResultCount = 0,
            sr_R2Key = '''', sr_Error = ''no keyframe images available''\<rparr>), sk)"
    by (simp add: ServeHTTP_def asr_gate_def vlm_gate_no_keyframes)
qed

theorem ServeHTTP_video_required_keyframes_optional_witness:
  "ServeHTTP test_handler \<lparr>Method = ''POST'', request_Body = ''test-ad''\<rparr> False =
     (http_Error ''download video: download video ads/test-ad/video.mp4: NoSuchKey'' 500, False) \<and>
   ServeHTTP test_handler \<lparr>Method = ''POST'', request_Body = ''test-ad''\<rparr> True =
     (Streams (ASR_started ''test-ad'' ''video-bytes'')
        (VLM_skipped \<lparr>Stream = ''vlm'', Status = ''skipped'', ResultCount = 0,
           sr_R2Key = '''', sr_Error = ''no keyframe images available''\<rparr>), True)"
proof -
  let ?req = "\<lparr>Method = ''POST'', request_Body = ''test-ad''\<rparr>"
  have pre: "Method ?req = ''POST''"
    "DecodeRequest test_handler (request_Body ?req) = Inr \<lparr>AdID = ''test-ad''\<rparr>"
    "AdID \<lparr>AdID = ''test-ad''\<rparr> \<noteq> ''''"
    by (simp_all add: test_handler_def)
  have v0: "DownloadVideo (r2 test_handler) ''test-ad'' False =
      (Inl ''download video ads/test-ad/video.mp4: NoSuchKey'', False)"
    by (simp add: DownloadVideo_def test_handler_def)
  have v1: "DownloadVideo (r2 test_handler) ''test-ad'' True = (Inr ''video-bytes'', True)"
    by (simp add: DownloadVideo_def test_handler_def ReadAll_def)
  have m1: "DownloadKeyframeMetadata (r2 test_handler) ''test-ad'' True =
      (Inl ''download metadata ads/test-ad/keyframes/metadata.json: NoSuchKey'', True)"
    by (simp add: DownloadKeyframeMetadata_def test_handler_def)
  have k: "DeepgramAPIKey (cfg test_handler) \<noteq> ''''" by (simp add: test_handler_def)
  from ServeHTTP_video_required_keyframes_optional [OF pre,
      where s = False and err = "''download video ads/test-ad/video.mp4: NoSuchKey''" and sv = False]
    ServeHTTP_video_required_keyframes_optional [OF pre,
      where s = True and videoBytes = "''video-bytes''" and sv = True and sk = True
        and errm = "''download metadata ads/test-ad/keyframes/metadata.json: NoSuchKey''"]
    v0 v1 m1 k
  show ?thesis by (simp add: StatusInternalServerError_def)
qed

end
